theory Spec2Isabelle
  imports Complex_Main "HOL-Library.Word"
begin

unbundle bit_operations_syntax

section \<open>JavaScript values used by splitter.js\<close>

text \<open>
  A JavaScript string is a sequence of UTF-16 code units. Numbers that the splitter
  computes with are integers well below \<open>2 ^ 53\<close>, so they are modelled as \<open>int\<close>; the
  conversions that the bitwise operators apply are written out. The only non-integer
  number that can arise is \<open>NaN\<close> (from \<open>parseInt\<close>), and the only fractional one is the
  result of \<open>Math.random()\<close>, a real in \<open>[0, 1)\<close>.
\<close>

type_synonym code_unit = "16 word"
type_synonym jsstring = "code_unit list"
type_synonym byte = "8 word"

definition js :: "string \<Rightarrow> jsstring" where
  "js s = map (\<lambda>c. of_nat (of_char c)) s"

datatype jsnum = NaN | Num int

datatype exn = SecurityError | URIError | DigestFailure

subsection \<open>Integer conversions and bitwise operators\<close>

definition ToInt32 :: "int \<Rightarrow> int" where
  "ToInt32 x = (let m = x mod 2 ^ 32 in if m \<ge> 2 ^ 31 then m - 2 ^ 32 else m)"

definition ToUint32 :: "int \<Rightarrow> int" where
  "ToUint32 x = x mod 2 ^ 32"

definition ToUint8 :: "jsnum \<Rightarrow> byte" where
  "ToUint8 v = (case v of NaN \<Rightarrow> 0 | Num n \<Rightarrow> word_of_int (n mod 256))"

text \<open>\<open>a ^ b\<close>, \<open>a | b\<close> and \<open>a << k\<close>: both operands go through \<open>ToInt32\<close>, the shift
  count is taken modulo 32, and the result is a signed 32-bit integer.\<close>

definition js_xor :: "int \<Rightarrow> int \<Rightarrow> int" where
  "js_xor a b = ToInt32 (ToInt32 a XOR ToInt32 b)"

definition js_or :: "int \<Rightarrow> int \<Rightarrow> int" where
  "js_or a b = ToInt32 (ToInt32 a OR ToInt32 b)"

definition js_shl :: "int \<Rightarrow> nat \<Rightarrow> int" where
  "js_shl a k = ToInt32 (ToInt32 a * 2 ^ (k mod 32))"

subsection \<open>String built-ins\<close>

text \<open>White space and line terminators, as \<open>String.prototype.trim\<close> and \<open>parseInt\<close>
  strip them.\<close>

definition isWhiteSpace :: "code_unit \<Rightarrow> bool" where
  "isWhiteSpace c \<longleftrightarrow> c \<in> set [0x09, 0x0A, 0x0B, 0x0C, 0x0D, 0x20, 0xA0, 0x1680,
     0x2000, 0x2001, 0x2002, 0x2003, 0x2004, 0x2005, 0x2006, 0x2007, 0x2008, 0x2009, 0x200A,
     0x2028, 0x2029, 0x202F, 0x205F, 0x3000, 0xFEFF]"

definition trim :: "jsstring \<Rightarrow> jsstring" where
  "trim s = rev (dropWhile isWhiteSpace (rev (dropWhile isWhiteSpace s)))"

definition substring :: "nat \<Rightarrow> nat \<Rightarrow> jsstring \<Rightarrow> jsstring" where
  "substring a b s =
     (let a' = min a (length s); b' = min b (length s); lo = min a' b'; hi = max a' b'
      in take (hi - lo) (drop lo s))"

definition substr :: "nat \<Rightarrow> nat \<Rightarrow> jsstring \<Rightarrow> jsstring" where
  "substr start n s = take n (drop start s)"

section \<open>Constants\<close>

definition EXACT_MIDDLE_POINT :: int where
  "EXACT_MIDDLE_POINT = 2147483648"

definition FAIR_BUCKET_STORAGE_KEY :: jsstring where
  "FAIR_BUCKET_STORAGE_KEY = js ''fair_bucket''"

definition FAIR_BUCKET_MANUAL_KEY :: jsstring where
  "FAIR_BUCKET_MANUAL_KEY = js ''fair_bucket_manual''"

section \<open>The environment and the observable state\<close>

text \<open>
  The splitter reaches its surroundings through globals. The ones it guards with a
  \<open>try\<close> or a \<open>typeof\<close> test may be missing or may throw, and the environment says
  which: \<open>localStorage\<close> (each method on its own), \<open>getGeoIP\<close>, \<open>navigator.userAgent\<close>,
  \<open>TextEncoder\<close>, \<open>crypto.subtle.digest\<close>, \<open>DataView\<close> and \<open>crypto.getRandomValues\<close>.
  \<open>Math.random\<close>, \<open>console\<close>, \<open>Uint8Array\<close> and the ECMAScript built-ins are taken to be
  present. Built-ins whose result the splitter only passes on are parameters:
  \<open>String.prototype.toLowerCase\<close>, \<open>Number.prototype.toString(36)\<close>, the digest itself
  and the two random sources (the \<open>n\<close>-th draw of each).
\<close>

datatype geoip =
    NoProvider
  | ProviderFails
  | ProviderReturns jsstring

text \<open>\<open>NoProvider\<close>: \<open>typeof getGeoIP\<close> is not \<open>'function'\<close>. \<open>ProviderFails\<close>: the call
  throws or its promise rejects. \<open>ProviderReturns ip\<close>: the call resolves and
  \<open>data?.ip || ""\<close> is the string \<open>ip\<close> (empty when the field is missing).\<close>

record env =
  getItem_throws :: bool
  setItem_throws :: bool
  removeItem_throws :: bool
  getGeoIP :: geoip
  userAgent :: "jsstring option"
  toLowerCase :: "jsstring \<Rightarrow> jsstring"
  numberToString36 :: "real \<Rightarrow> jsstring"
  Math_random :: "nat \<Rightarrow> real"
  TextEncoder_available :: bool
  digest :: "byte list \<Rightarrow> byte list option"
  DataView_available :: bool
  getRandomValues :: "(nat \<Rightarrow> 32 word) option"

datatype console_level = Log | Warn | Error

datatype event =
    GetItem jsstring
  | SetItem jsstring jsstring
  | RemoveItem jsstring
  | GeoIPCall
  | DigestCall "byte list"
  | GetRandomValuesCall
  | MathRandomCall
  | Console console_level string

text \<open>
  The state holds the contents of \<open>localStorage\<close>, the number of draws made so far
  from each random source, and the trace of every call the splitter made on its
  surroundings (a call that throws is recorded too). A console event keeps the level
  and the leading text of the message.
\<close>

record world =
  storage :: "jsstring \<rightharpoonup> jsstring"
  random_draws :: nat
  secure_draws :: nat
  events :: "event list"

definition emit :: "event \<Rightarrow> world \<Rightarrow> world" where
  "emit e w = w\<lparr>events := events w @ [e]\<rparr>"

subsection \<open>localStorage\<close>

definition getItem :: "env \<Rightarrow> jsstring \<Rightarrow> world \<Rightarrow> (exn + jsstring option) \<times> world" where
  "getItem E k w =
     (if getItem_throws E then (Inl SecurityError, emit (GetItem k) w)
      else (Inr (storage w k), emit (GetItem k) w))"

definition setItem :: "env \<Rightarrow> jsstring \<Rightarrow> jsstring \<Rightarrow> world \<Rightarrow> (exn + unit) \<times> world" where
  "setItem E k v w =
     (if setItem_throws E then (Inl SecurityError, emit (SetItem k v) w)
      else (Inr (), emit (SetItem k v) (w\<lparr>storage := (storage w)(k \<mapsto> v)\<rparr>)))"

definition removeItem :: "env \<Rightarrow> jsstring \<Rightarrow> world \<Rightarrow> (exn + unit) \<times> world" where
  "removeItem E k w =
     (if removeItem_throws E then (Inl SecurityError, emit (RemoveItem k) w)
      else (Inr (), emit (RemoveItem k) (w\<lparr>storage := (storage w)(k := None)\<rparr>)))"

subsection \<open>Math.random\<close>

definition Math_random_draw :: "env \<Rightarrow> world \<Rightarrow> real \<times> world" where
  "Math_random_draw E w =
     (Math_random E (random_draws w),
      emit MathRandomCall (w\<lparr>random_draws := Suc (random_draws w)\<rparr>))"

section \<open>Assignment store (splitter.js, lines 66 to 113)\<close>

definition getSavedBucket :: "env \<Rightarrow> world \<Rightarrow> jsstring option \<times> world" where
  "getSavedBucket E w =
     (case getItem E FAIR_BUCKET_STORAGE_KEY w of
        (Inr v, w') \<Rightarrow> (v, w')
      | (Inl e, w') \<Rightarrow> (None, emit (Console Warn ''[Splitter] localStorage access failed:'') w'))"

definition saveBucket :: "env \<Rightarrow> jsstring \<Rightarrow> world \<Rightarrow> world" where
  "saveBucket E bucketName w =
     (case setItem E FAIR_BUCKET_STORAGE_KEY bucketName w of
        (Inr u, w') \<Rightarrow> w'
      | (Inl e, w') \<Rightarrow> emit (Console Warn ''[Splitter] Failed to save bucket:'') w')"

definition isManualOverride :: "env \<Rightarrow> world \<Rightarrow> bool \<times> world" where
  "isManualOverride E w =
     (case getItem E FAIR_BUCKET_MANUAL_KEY w of
        (Inr v, w') \<Rightarrow> (v = Some (js ''true''), w')
      | (Inl e, w') \<Rightarrow> (False, w'))"

definition setManualOverride :: "env \<Rightarrow> bool \<Rightarrow> world \<Rightarrow> world" where
  "setManualOverride E isManual w =
     (case (if isManual then setItem E FAIR_BUCKET_MANUAL_KEY (js ''true'') w
            else removeItem E FAIR_BUCKET_MANUAL_KEY w) of
        (Inr u, w') \<Rightarrow> w'
      | (Inl e, w') \<Rightarrow> emit (Console Warn ''[Splitter] Failed to set manual override flag:'') w')"

section \<open>Text encoding\<close>

subsection \<open>UTF-16 surrogates and UTF-8 (Unicode, chapter 3)\<close>

definition isLeadSurrogate :: "code_unit \<Rightarrow> bool" where
  "isLeadSurrogate c \<longleftrightarrow> 0xD800 \<le> c \<and> c \<le> 0xDBFF"

definition isTrailSurrogate :: "code_unit \<Rightarrow> bool" where
  "isTrailSurrogate c \<longleftrightarrow> 0xDC00 \<le> c \<and> c \<le> 0xDFFF"

definition surrogatePair :: "code_unit \<Rightarrow> code_unit \<Rightarrow> nat" where
  "surrogatePair lead trail = (unat lead - 0xD800) * 0x400 + (unat trail - 0xDC00) + 0x10000"

definition utf8_encode_code_point :: "nat \<Rightarrow> byte list" where
  "utf8_encode_code_point cp =
     (if cp < 0x80 then [of_nat cp]
      else if cp < 0x800 then [of_nat (0xC0 + cp div 0x40), of_nat (0x80 + cp mod 0x40)]
      else if cp < 0x10000 then
        [of_nat (0xE0 + cp div 0x1000), of_nat (0x80 + cp div 0x40 mod 0x40),
         of_nat (0x80 + cp mod 0x40)]
      else
        [of_nat (0xF0 + cp div 0x40000), of_nat (0x80 + cp div 0x1000 mod 0x40),
         of_nat (0x80 + cp div 0x40 mod 0x40), of_nat (0x80 + cp mod 0x40)])"

text \<open>A string is well formed when every surrogate code unit is half of a pair.\<close>

fun well_formed :: "jsstring \<Rightarrow> bool" where
  "well_formed [] = True"
| "well_formed (c # cs) =
     (if \<not> isLeadSurrogate c \<and> \<not> isTrailSurrogate c then well_formed cs
      else if isTrailSurrogate c then False
      else (case cs of [] \<Rightarrow> False | d # ds \<Rightarrow> isTrailSurrogate d \<and> well_formed ds))"

text \<open>\<open>new TextEncoder().encode(s)\<close> (WHATWG Encoding): the standard UTF-8 encoding of
  the string, each unpaired surrogate replaced by U+FFFD.\<close>

fun TextEncoder_encode :: "jsstring \<Rightarrow> byte list" where
  "TextEncoder_encode [] = []"
| "TextEncoder_encode (c # cs) =
     (if \<not> isLeadSurrogate c \<and> \<not> isTrailSurrogate c then
        utf8_encode_code_point (unat c) @ TextEncoder_encode cs
      else if isTrailSurrogate c then utf8_encode_code_point 0xFFFD @ TextEncoder_encode cs
      else (case cs of
              [] \<Rightarrow> utf8_encode_code_point 0xFFFD
            | d # ds \<Rightarrow>
                if isTrailSurrogate d then
                  utf8_encode_code_point (surrogatePair c d) @ TextEncoder_encode ds
                else utf8_encode_code_point 0xFFFD @ TextEncoder_encode cs))"

subsection \<open>encodeURIComponent and parseInt (ECMA-262)\<close>

definition uriUnescaped :: "code_unit \<Rightarrow> bool" where
  "uriUnescaped c \<longleftrightarrow>
     (0x41 \<le> c \<and> c \<le> 0x5A) \<or> (0x61 \<le> c \<and> c \<le> 0x7A) \<or> (0x30 \<le> c \<and> c \<le> 0x39) \<or>
     c \<in> set [0x2D, 0x5F, 0x2E, 0x21, 0x7E, 0x2A, 0x27, 0x28, 0x29]"

definition hexDigit :: "nat \<Rightarrow> code_unit" where
  "hexDigit n = (if n < 10 then of_nat (0x30 + n) else of_nat (0x41 + (n - 10)))"

definition percentEscape :: "byte \<Rightarrow> jsstring" where
  "percentEscape b = [0x25, hexDigit (unat b div 16), hexDigit (unat b mod 16)]"

text \<open>\<open>encodeURIComponent\<close>: an unescaped character is copied; any other code point is
  replaced by the percent escapes of its UTF-8 bytes; an unpaired surrogate raises
  \<open>URIError\<close>.\<close>

fun encodeURIComponent :: "jsstring \<Rightarrow> exn + jsstring" where
  "encodeURIComponent [] = Inr []"
| "encodeURIComponent (c # cs) =
     (if uriUnescaped c then
        (case encodeURIComponent cs of Inl e \<Rightarrow> Inl e | Inr r \<Rightarrow> Inr (c # r))
      else if \<not> isLeadSurrogate c \<and> \<not> isTrailSurrogate c then
        (case encodeURIComponent cs of
           Inl e \<Rightarrow> Inl e
         | Inr r \<Rightarrow> Inr (concat (map percentEscape (utf8_encode_code_point (unat c))) @ r))
      else if isTrailSurrogate c then Inl URIError
      else (case cs of
              [] \<Rightarrow> Inl URIError
            | d # ds \<Rightarrow>
                if \<not> isTrailSurrogate d then Inl URIError
                else (case encodeURIComponent ds of
                        Inl e \<Rightarrow> Inl e
                      | Inr r \<Rightarrow>
                          Inr (concat (map percentEscape
                                 (utf8_encode_code_point (surrogatePair c d))) @ r))))"

definition isHexDigit :: "code_unit \<Rightarrow> bool" where
  "isHexDigit c \<longleftrightarrow>
     (0x30 \<le> c \<and> c \<le> 0x39) \<or> (0x41 \<le> c \<and> c \<le> 0x46) \<or> (0x61 \<le> c \<and> c \<le> 0x66)"

definition hexValue :: "code_unit \<Rightarrow> int" where
  "hexValue c =
     (if c \<le> 0x39 then uint c - 0x30
      else if c \<le> 0x46 then uint c - 0x41 + 10
      else uint c - 0x61 + 10)"

text \<open>\<open>parseInt(s, 16)\<close>: leading white space is skipped, then a sign, then a
  \<open>0x\<close> or \<open>0X\<close> prefix; the longest run of hexadecimal digits that follows is the
  value, and \<open>NaN\<close> when there is none.\<close>

definition parseInt16 :: "jsstring \<Rightarrow> jsnum" where
  "parseInt16 s =
     (let S = dropWhile isWhiteSpace s;
          sign = (if S \<noteq> [] \<and> hd S = 0x2D then - 1 else 1);
          S1 = (if S \<noteq> [] \<and> (hd S = 0x2B \<or> hd S = 0x2D) then tl S else S);
          S2 = (if 2 \<le> length S1 \<and> S1 ! 0 = 0x30 \<and> (S1 ! 1 = 0x78 \<or> S1 ! 1 = 0x58)
                then drop 2 S1 else S1);
          Z = takeWhile isHexDigit S2
      in if Z = [] then NaN else Num (sign * foldl (\<lambda>a d. 16 * a + hexValue d) 0 Z))"

section \<open>Hashing (splitter.js, lines 211 to 285)\<close>

subsection \<open>strToUtf8Bytes\<close>

text \<open>The loop over \<open>enc\<close>: at a percent sign the next two characters are parsed as a
  hexadecimal number and skipped; any other character contributes its code unit.\<close>

function strToUtf8Bytes_loop :: "jsstring \<Rightarrow> jsnum list" where
  "strToUtf8Bytes_loop [] = []"
| "strToUtf8Bytes_loop (ch # rest) =
     (if ch = 0x25 then parseInt16 (substr 0 2 rest) # strToUtf8Bytes_loop (drop 2 rest)
      else Num (uint ch) # strToUtf8Bytes_loop rest)"
  by pat_completeness auto
termination
  by (relation "measure length") auto

definition strToUtf8Bytes :: "jsstring \<Rightarrow> exn + jsnum list" where
  "strToUtf8Bytes str =
     (case encodeURIComponent str of
        Inl e \<Rightarrow> Inl e
      | Inr enc \<Rightarrow> Inr (strToUtf8Bytes_loop enc))"

subsection \<open>fnv1a32\<close>

fun fnv1a32_loop :: "int \<Rightarrow> jsstring \<Rightarrow> int" where
  "fnv1a32_loop h [] = h"
| "fnv1a32_loop h (c # cs) =
     (let h1 = js_xor h (uint c);
          h2 = ToUint32 (h1 + (js_shl h1 1 + js_shl h1 4 + js_shl h1 7 + js_shl h1 8
                                + js_shl h1 24))
      in fnv1a32_loop h2 cs)"

definition fnv1a32 :: "jsstring \<Rightarrow> int" where
  "fnv1a32 str = ToUint32 (fnv1a32_loop 0x811c9dc5 str)"

subsection \<open>hashToUint32\<close>

text \<open>Lines 216 to 221: the bytes to digest, from \<open>TextEncoder\<close> or else from
  \<open>strToUtf8Bytes\<close> stored into a \<open>Uint8Array\<close>.\<close>

definition utf8Bytes :: "env \<Rightarrow> jsstring \<Rightarrow> exn + byte list" where
  "utf8Bytes E normalized =
     (if TextEncoder_available E then Inr (TextEncoder_encode normalized)
      else (case strToUtf8Bytes normalized of
              Inl e \<Rightarrow> Inl e
            | Inr nums \<Rightarrow> Inr (map ToUint8 nums)))"

text \<open>Lines 225 to 231: the first four bytes of the digest as a big-endian number,
  read through a \<open>DataView\<close> (which raises when the buffer is shorter than four bytes)
  or else assembled from a \<open>Uint8Array\<close>, where a missing element is \<open>undefined\<close> and
  counts as 0 under the bitwise operators.\<close>

definition getUint32 :: "byte list \<Rightarrow> int" where
  "getUint32 buffer =
     uint (buffer ! 0) * 2 ^ 24 + uint (buffer ! 1) * 2 ^ 16 + uint (buffer ! 2) * 2 ^ 8
       + uint (buffer ! 3)"

definition u8 :: "byte list \<Rightarrow> nat \<Rightarrow> int" where
  "u8 buffer i = (if i < length buffer then uint (buffer ! i) else 0)"

definition firstUint32 :: "env \<Rightarrow> byte list \<Rightarrow> int" where
  "firstUint32 E buffer =
     (if DataView_available E \<and> 4 \<le> length buffer then ToUint32 (getUint32 buffer)
      else ToUint32 (js_or (js_or (js_or (js_shl (u8 buffer 0) 24) (js_shl (u8 buffer 1) 16))
                                  (js_shl (u8 buffer 2) 8))
                           (u8 buffer 3)))"

text \<open>Lines 215 to 234: the first \<open>try\<close> block. \<open>Inl\<close> is an exception that reaches its
  \<open>catch\<close>.\<close>

definition sha256Stage :: "env \<Rightarrow> jsstring \<Rightarrow> world \<Rightarrow> (exn + int) \<times> world" where
  "sha256Stage E normalized w =
     (case utf8Bytes E normalized of
        Inl e \<Rightarrow> (Inl e, w)
      | Inr bytes \<Rightarrow>
          (case digest E bytes of
             None \<Rightarrow> (Inl DigestFailure, emit (DigestCall bytes) w)
           | Some buffer \<Rightarrow> (Inr (firstUint32 E buffer), emit (DigestCall bytes) w)))"

text \<open>Lines 237 to 241: the second \<open>try\<close> block. A call of \<open>fnv1a32\<close> on a string
  completes normally: it reads \<open>str.length\<close> and \<open>str.charCodeAt(i)\<close> and computes with
  32-bit operators.\<close>

definition fnvStage :: "jsstring \<Rightarrow> exn + int" where
  "fnvStage normalized = Inr (fnv1a32 normalized)"

text \<open>Lines 244 to 250: \<open>crypto.getRandomValues\<close> on a one-element \<open>Uint32Array\<close>, or
  else \<open>Math.floor(Math.random() * 0x100000000) >>> 0\<close>.\<close>

definition randomStage :: "env \<Rightarrow> world \<Rightarrow> (exn + int) \<times> world" where
  "randomStage E w =
     (case getRandomValues E of
        Some gen \<Rightarrow>
          (Inr (ToUint32 (uint (gen (secure_draws w)))),
           emit GetRandomValuesCall (w\<lparr>secure_draws := Suc (secure_draws w)\<rparr>))
      | None \<Rightarrow>
          (case Math_random_draw E (emit GetRandomValuesCall w) of
             (r, w') \<Rightarrow> (Inr (ToUint32 \<lfloor>r * 4294967296\<rfloor>), w')))"

definition hashToUint32 :: "env \<Rightarrow> jsstring \<Rightarrow> world \<Rightarrow> (exn + int) \<times> world" where
  "hashToUint32 E text w =
     (case sha256Stage E text w of
        (Inr v, w1) \<Rightarrow> (Inr v, w1)
      | (Inl e, w1) \<Rightarrow>
          (let w2 = emit (Console Warn ''[Splitter] SHA-256 failed, using FNV-1a fallback'') w1
           in case fnvStage text of
                Inr v \<Rightarrow> (Inr v, w2)
              | Inl e' \<Rightarrow>
                  randomStage E
                    (emit (Console Warn ''[Splitter] FNV-1a failed, using random fallback'') w2)))"

section \<open>Identity key (splitter.js, lines 165 to 199)\<close>

definition getMyIpAddress :: "env \<Rightarrow> world \<Rightarrow> jsstring \<times> world" where
  "getMyIpAddress E w =
     (case (case getGeoIP E of
              NoProvider \<Rightarrow> (None, w)
            | ProviderFails \<Rightarrow>
                (None, emit (Console Warn ''[Splitter] getGeoIP failed:'') (emit GeoIPCall w))
            | ProviderReturns v \<Rightarrow>
                (let ip = trim v in (if ip \<noteq> [] then Some ip else None, emit GeoIPCall w))) of
        (Some ip, w1) \<Rightarrow> (ip, w1)
      | (None, w1) \<Rightarrow>
          (case Math_random_draw E w1 of
             (r, w2) \<Rightarrow>
               (js ''random-'' @ substring 2 15 (numberToString36 E r),
                emit (Console Warn ''[Splitter] IP detection failed, using random identifier'')
                  w2)))"

definition buildHashInput :: "env \<Rightarrow> world \<Rightarrow> jsstring \<times> world" where
  "buildHashInput E w =
     (case getMyIpAddress E w of
        (ip, w1) \<Rightarrow>
          (case userAgent E of
             Some ua \<Rightarrow> (toLowerCase E (trim (ip @ js ''|'' @ ua)), w1)
           | None \<Rightarrow>
               (toLowerCase E (trim (ip @ js ''|'' @ [])),
                emit (Console Warn ''[Splitter] Failed to get user agent:'') w1)))"

section \<open>Orchestrator (splitter.js, lines 37 to 60 and 119 to 155)\<close>

text \<open>The bucket mapper, written \<open>score >= EXACT_MIDDLE_POINT ? "A" : "B"\<close> on lines 47
  and 154.\<close>

definition bucketOfScore :: "int \<Rightarrow> jsstring" where
  "bucketOfScore score = (if score \<ge> EXACT_MIDDLE_POINT then js ''A'' else js ''B'')"

text \<open>Lines 45 to 59: the path of \<open>assignFairBucket\<close> taken when no bucket is loaded.\<close>

definition assignNewBucket :: "env \<Rightarrow> world \<Rightarrow> (exn + jsstring) \<times> world" where
  "assignNewBucket E w =
     (case buildHashInput E w of
        (key, w1) \<Rightarrow>
          (case hashToUint32 E key w1 of
             (Inl e, w2) \<Rightarrow> (Inl e, w2)
           | (Inr score, w2) \<Rightarrow>
               (let bucket = bucketOfScore score;
                    w3 = saveBucket E bucket w2;
                    w4 = setManualOverride E False w3
                in (Inr bucket, emit (Console Log ''[Splitter] New assignment:'') w4))))"

text \<open>\<open>if (existing)\<close> holds for a string that is not empty; \<open>null\<close> and \<open>""\<close> are
  falsy.\<close>

definition assignFairBucket :: "env \<Rightarrow> world \<Rightarrow> (exn + jsstring) \<times> world" where
  "assignFairBucket E w =
     (case getSavedBucket E w of
        (None, w1) \<Rightarrow> assignNewBucket E w1
      | (Some existing, w1) \<Rightarrow>
          if existing \<noteq> [] then
            (case isManualOverride E w1 of
               (isManual, w2) \<Rightarrow>
                 (Inr existing, emit (Console Log ''[Splitter] Loaded existing bucket:'') w2))
          else assignNewBucket E w1)"

definition setFairBucket :: "env \<Rightarrow> jsstring \<Rightarrow> world \<Rightarrow> world" where
  "setFairBucket E bucket w =
     (if bucket \<noteq> js ''A'' \<and> bucket \<noteq> js ''B'' then
        emit (Console Error ''[Splitter] Invalid bucket:'') w
      else
        (let w1 = saveBucket E bucket w;
             w2 = setManualOverride E True w1
         in emit (Console Log ''[Splitter] Manual override set:'') w2))"

definition clearFairBucket :: "env \<Rightarrow> world \<Rightarrow> (exn + jsstring) \<times> world" where
  "clearFairBucket E w =
     (let w1 =
        (case removeItem E FAIR_BUCKET_STORAGE_KEY w of
           (Inl e, w') \<Rightarrow> emit (Console Warn ''[Splitter] Failed to clear bucket:'') w'
         | (Inr u, w') \<Rightarrow>
             (case removeItem E FAIR_BUCKET_MANUAL_KEY w' of
                (Inl e, w'') \<Rightarrow> emit (Console Warn ''[Splitter] Failed to clear bucket:'') w''
              | (Inr u', w'') \<Rightarrow>
                  emit (Console Log ''[Splitter] Cleared bucket assignment'') w''))
      in assignFairBucket E w1)"

definition getHashBasedBucket :: "env \<Rightarrow> world \<Rightarrow> (exn + jsstring) \<times> world" where
  "getHashBasedBucket E w =
     (case buildHashInput E w of
        (key, w1) \<Rightarrow>
          (case hashToUint32 E key w1 of
             (Inl e, w2) \<Rightarrow> (Inl e, w2)
           | (Inr score, w2) \<Rightarrow> (Inr (bucketOfScore score), w2)))"

section \<open>Reference definitions\<close>

text \<open>FNV-1a as the specification words it: the accumulator is an unsigned 32-bit
  number that starts at the offset basis; each code unit is XORed in and the sum
  \<open>h + (h<<1) + (h<<4) + (h<<7) + (h<<8) + (h<<24)\<close> is then reduced modulo \<open>2 ^ 32\<close>.\<close>

definition fnv_update_spec :: "nat \<Rightarrow> nat" where
  "fnv_update_spec h =
     (h + h * 2 ^ 1 + h * 2 ^ 4 + h * 2 ^ 7 + h * 2 ^ 8 + h * 2 ^ 24) mod 2 ^ 32"

fun fnv1a_spec_loop :: "nat \<Rightarrow> jsstring \<Rightarrow> nat" where
  "fnv1a_spec_loop h [] = h"
| "fnv1a_spec_loop h (c # cs) = fnv1a_spec_loop (fnv_update_spec (h XOR unat c)) cs"

definition fnv1a_spec :: "jsstring \<Rightarrow> nat" where
  "fnv1a_spec s = fnv1a_spec_loop 0x811c9dc5 s"

text \<open>The same hash on 32-bit words, with the multiplication by the FNV prime; it
  links the two formulations in the proofs.\<close>

fun fnv1a_word :: "32 word \<Rightarrow> jsstring \<Rightarrow> 32 word" where
  "fnv1a_word h [] = h"
| "fnv1a_word h (c # cs) = fnv1a_word ((h XOR ucast c) * 16777619) cs"

section \<open>Example environments\<close>

text \<open>A browser with a working store, an identity provider that answers \<open>1.2.3.4\<close>, the
  user agent \<open>test-agent\<close>, and no digest capability.\<close>

definition exampleEnv :: env where
  "exampleEnv =
     \<lparr> getItem_throws = False, setItem_throws = False, removeItem_throws = False,
       getGeoIP = ProviderReturns (js ''1.2.3.4''), userAgent = Some (js ''test-agent''),
       toLowerCase = (\<lambda>s. s), numberToString36 = (\<lambda>r. js ''0''),
       Math_random = (\<lambda>n. 0), TextEncoder_available = True, digest = (\<lambda>bs. None),
       DataView_available = True, getRandomValues = None \<rparr>"

definition emptyWorld :: world where
  "emptyWorld = \<lparr> storage = Map.empty, random_draws = 0, secure_draws = 0, events = [] \<rparr>"

section \<open>Observations on the state\<close>

text \<open>Two states in which both random sources stand at the same draw.\<close>

definition sameDraws :: "world \<Rightarrow> world \<Rightarrow> bool" where
  "sameDraws w w' \<longleftrightarrow> random_draws w = random_draws w' \<and> secure_draws w = secure_draws w'"

definition isStoreEvent :: "event \<Rightarrow> bool" where
  "isStoreEvent ev =
     (case ev of GetItem k \<Rightarrow> True | SetItem k v \<Rightarrow> True | RemoveItem k \<Rightarrow> True | _ \<Rightarrow> False)"

definition isSetItem :: "event \<Rightarrow> bool" where
  "isSetItem ev = (case ev of SetItem k v \<Rightarrow> True | _ \<Rightarrow> False)"

text \<open>The number of \<open>setItem\<close> calls in a trace: the writes of a value to the store.\<close>

definition storeWrites :: "event list \<Rightarrow> nat" where
  "storeWrites evs = length (filter isSetItem evs)"

text \<open>From \<open>w\<close> to \<open>w'\<close> the store was neither read nor written: its contents are the
  same and no call on it was added to the trace.\<close>

definition storeUntouched :: "world \<Rightarrow> world \<Rightarrow> bool" where
  "storeUntouched w w' \<longleftrightarrow>
     storage w' = storage w \<and>
     filter isStoreEvent (events w') = filter isStoreEvent (events w)"

text \<open>A state whose store holds the given values (or nothing) under the assignment key
  and under the manual-override key.\<close>

definition worldWith :: "jsstring option \<Rightarrow> jsstring option \<Rightarrow> world" where
  "worldWith a m =
     emptyWorld\<lparr>storage :=
       (\<lambda>k. if k = FAIR_BUCKET_STORAGE_KEY then a
            else if k = FAIR_BUCKET_MANUAL_KEY then m else None)\<rparr>"

text \<open>The network identity provider gives no usable address: it is missing, it fails,
  or what it returns is empty after trimming.\<close>

definition providerUnavailable :: "env \<Rightarrow> bool" where
  "providerUnavailable E =
     (case getGeoIP E of
        NoProvider \<Rightarrow> True
      | ProviderFails \<Rightarrow> True
      | ProviderReturns v \<Rightarrow> trim v = [])"

text \<open>The example browser without an identity provider, in which \<open>Math.random()\<close>
  returns 0.25 on its first call and 0.5 on every later one; \<open>(0.25).toString(36)\<close> is
  \<open>"0.9"\<close> and \<open>(0.5).toString(36)\<close> is \<open>"0.i"\<close>.\<close>

definition noProviderEnv :: env where
  "noProviderEnv =
     exampleEnv\<lparr>getGeoIP := NoProvider,
                numberToString36 := (\<lambda>r. if r = 1 / 4 then js ''0.9'' else js ''0.i''),
                Math_random := (\<lambda>n. if n = 0 then 1 / 4 else 1 / 2)\<rparr>"

text \<open>The example browser with a digest capability that resolves to the given bytes.\<close>

definition digestEnv :: "byte list \<Rightarrow> env" where
  "digestEnv buffer = exampleEnv\<lparr>digest := (\<lambda>bs. Some buffer)\<rparr>"

text \<open>The example browser without an identity provider; \<open>Math.random()\<close> returns 0 on
  every call and \<open>(0).toString(36)\<close> is \<open>"0"\<close>.\<close>

definition constantDrawEnv :: env where
  "constantDrawEnv = exampleEnv\<lparr>getGeoIP := NoProvider\<rparr>"

text \<open>Line 178: the value of \<open>randomId\<close> when \<open>Math.random()\<close> returns its \<open>n\<close>-th draw.\<close>

definition randomId :: "env \<Rightarrow> nat \<Rightarrow> jsstring" where
  "randomId E n = js ''random-'' @ substring 2 15 (numberToString36 E (Math_random E n))"

section \<open>32-bit arithmetic of the bitwise operators\<close>

lemma ToUint32_uint: "ToUint32 x = uint (word_of_int x :: 32 word)"
  by (simp add: ToUint32_def uint_word_of_int take_bit_eq_mod)

lemma ToUint32_range: "0 \<le> ToUint32 x \<and> ToUint32 x \<le> 4294967295"
  by (simp add: ToUint32_def)

lemma ToInt32_sint: "ToInt32 x = sint (word_of_int x :: 32 word)"
proof -
  define m where "m = x mod 4294967296"
  have m: "0 \<le> m" "m < 4294967296" by (simp_all add: m_def)
  have shift: "(x + 2147483648) mod 4294967296 = (m + 2147483648) mod 4294967296"
    by (simp add: m_def mod_add_left_eq)
  have "sint (word_of_int x :: 32 word) = signed_take_bit 31 x"
    by (simp add: sint_sbintrunc')
  also have "\<dots> = (x + 2147483648) mod 4294967296 - 2147483648"
    by (simp add: signed_take_bit_eq_take_bit_shift take_bit_eq_mod)
  also have "\<dots> = (if m \<ge> 2147483648 then m - 4294967296 else m)"
  proof (cases "m \<ge> 2147483648")
    case True
    have e: "m + 2147483648 = (m - 2147483648) + 4294967296"
      by simp
    have "(m + 2147483648) mod 4294967296 = (m - 2147483648) mod 4294967296"
      by (subst e) (simp only: mod_add_self2)
    also have "\<dots> = m - 2147483648"
      using True m by (intro mod_pos_pos_trivial) simp_all
    finally show ?thesis using True shift by simp
  next
    case False
    have "(m + 2147483648) mod 4294967296 = m + 2147483648"
      using False m by (intro mod_pos_pos_trivial) simp_all
    then show ?thesis using False shift by simp
  qed
  finally show ?thesis by (simp add: ToInt32_def m_def Let_def)
qed

lemma word_of_ToInt32: "(word_of_int (ToInt32 x) :: 32 word) = word_of_int x"
  by (simp add: ToInt32_sint)

lemma word_of_ToUint32: "(word_of_int (ToUint32 x) :: 32 word) = word_of_int x"
  by (simp add: ToUint32_uint)

lemma word_of_js_xor: "(word_of_int (js_xor a b) :: 32 word) = word_of_int a XOR word_of_int b"
  by (simp add: js_xor_def word_of_ToInt32 word_wi_log_defs [symmetric])

lemma word_of_js_shl: "(word_of_int (js_shl a k) :: 32 word) = word_of_int a * 2 ^ (k mod 32)"
  by (simp add: js_shl_def word_of_ToInt32)

section \<open>fnv1a32 computes FNV-1a\<close>

lemma fnv_step_word:
  "(word_of_int (ToUint32 (h1 + (js_shl h1 (Suc 0) + js_shl h1 4 + js_shl h1 7 + js_shl h1 8
       + js_shl h1 24))) :: 32 word) = word_of_int h1 * 16777619"
  by (simp add: word_of_ToUint32 word_of_js_shl)

lemma fnv1a32_loop_word:
  "(word_of_int (fnv1a32_loop h cs) :: 32 word) = fnv1a_word (word_of_int h) cs"
proof (induction cs arbitrary: h)
  case Nil
  show ?case by simp
next
  case (Cons c cs)
  have "(word_of_int (uint c) :: 32 word) = ucast c"
    by simp
  then show ?case
    using Cons.IH by (simp add: Let_def fnv_step_word word_of_js_xor)
qed

lemma word_of_nat_mod32: "(of_nat (n mod 4294967296) :: 32 word) = of_nat n"
  by (simp add: word_of_nat_eq_iff take_bit_eq_mod)

lemma fnv_update_spec_word: "(of_nat (fnv_update_spec x) :: 32 word) = of_nat x * 16777619"
  unfolding fnv_update_spec_def by (simp add: word_of_nat_mod32)

lemma fnv_update_spec_lt: "fnv_update_spec x < 4294967296"
  by (simp add: fnv_update_spec_def)

lemma fnv_spec_loop_word:
  "(of_nat (fnv1a_spec_loop h cs) :: 32 word) = fnv1a_word (of_nat h) cs"
proof (induction cs arbitrary: h)
  case Nil
  show ?case by simp
next
  case (Cons c cs)
  have "(of_nat (h XOR unat c) :: 32 word) = of_nat h XOR ucast c"
    by (simp add: of_nat_xor_eq)
  then show ?case
    using Cons.IH by (simp add: fnv_update_spec_word)
qed

lemma fnv_spec_loop_lt: "h < 4294967296 \<Longrightarrow> fnv1a_spec_loop h cs < 4294967296"
  by (induction cs arbitrary: h) (simp_all add: fnv_update_spec_lt)

lemma fnv1a32_spec: "fnv1a32 s = int (fnv1a_spec s)"
proof -
  have "fnv1a32 s = uint (fnv1a_word 0x811c9dc5 s)"
    using fnv1a32_loop_word [of "0x811c9dc5" s] by (simp add: fnv1a32_def ToUint32_uint)
  moreover have "fnv1a_word 0x811c9dc5 s = of_nat (fnv1a_spec s)"
    using fnv_spec_loop_word [of "0x811c9dc5" s] by (simp add: fnv1a_spec_def)
  moreover have "fnv1a_spec s < 4294967296"
    unfolding fnv1a_spec_def by (rule fnv_spec_loop_lt) simp
  ultimately show ?thesis
    by (simp add: uint_nat unat_of_nat)
qed

lemma fnv_update_spec_mult: "fnv_update_spec h = h * 16777619 mod 2 ^ 32"
  by (simp add: fnv_update_spec_def mult.commute)

section \<open>What the identity key and the hash chain leave alone\<close>

lemma emit_simps [simp]:
  "storage (emit ev w) = storage w"
  "random_draws (emit ev w) = random_draws w"
  "secure_draws (emit ev w) = secure_draws w"
  "events (emit ev w) = events w @ [ev]"
  by (simp_all add: emit_def)

lemma sameDraws_emit [simp]:
  "sameDraws (emit ev w) w' = sameDraws w w'"
  "sameDraws w (emit ev w') = sameDraws w w'"
  by (simp_all add: sameDraws_def)

lemma sameDraws_refl [simp]: "sameDraws w w"
  by (simp add: sameDraws_def)

lemma sameDraws_update [simp]: "sameDraws (w\<lparr>storage := s, events := evs\<rparr>) w"
  by (simp add: sameDraws_def)

lemma storeUntouched_refl [simp]: "storeUntouched w w"
  by (simp add: storeUntouched_def)

lemma storeUntouched_trans: "storeUntouched w w1 \<Longrightarrow> storeUntouched w1 w2 \<Longrightarrow> storeUntouched w w2"
  by (simp add: storeUntouched_def)

lemma Math_random_draw_same:
  "sameDraws w w' \<Longrightarrow>
     fst (Math_random_draw E w) = fst (Math_random_draw E w') \<and>
     sameDraws (snd (Math_random_draw E w)) (snd (Math_random_draw E w'))"
  by (simp add: Math_random_draw_def sameDraws_def)

lemma Math_random_draw_untouched: "storeUntouched w (snd (Math_random_draw E w))"
  by (simp add: Math_random_draw_def storeUntouched_def isStoreEvent_def)

lemma getMyIpAddress_same:
  "sameDraws w w' \<Longrightarrow>
     fst (getMyIpAddress E w) = fst (getMyIpAddress E w') \<and>
     sameDraws (snd (getMyIpAddress E w)) (snd (getMyIpAddress E w'))"
  by (cases "getGeoIP E")
     (simp_all add: getMyIpAddress_def Math_random_draw_def sameDraws_def Let_def)

lemma getMyIpAddress_untouched: "storeUntouched w (snd (getMyIpAddress E w))"
  by (cases "getGeoIP E")
     (simp_all add: getMyIpAddress_def Math_random_draw_def storeUntouched_def isStoreEvent_def Let_def)

lemma buildHashInput_same:
  "sameDraws w w' \<Longrightarrow>
     fst (buildHashInput E w) = fst (buildHashInput E w') \<and>
     sameDraws (snd (buildHashInput E w)) (snd (buildHashInput E w'))"
  using getMyIpAddress_same [of w w' E]
  by (auto simp: buildHashInput_def split: prod.splits option.splits)

lemma buildHashInput_untouched: "storeUntouched w (snd (buildHashInput E w))"
  using getMyIpAddress_untouched [of w E]
  by (auto simp: buildHashInput_def storeUntouched_def isStoreEvent_def split: prod.splits option.splits)

lemma sha256Stage_same:
  "sameDraws w w' \<Longrightarrow>
     fst (sha256Stage E t w) = fst (sha256Stage E t w') \<and>
     sameDraws (snd (sha256Stage E t w)) (snd (sha256Stage E t w'))"
  by (simp add: sha256Stage_def split: sum.splits option.splits)

lemma sha256Stage_untouched: "storeUntouched w (snd (sha256Stage E t w))"
  by (simp add: sha256Stage_def storeUntouched_def isStoreEvent_def split: sum.splits option.splits)

lemma hashToUint32_same:
  "sameDraws w w' \<Longrightarrow>
     fst (hashToUint32 E t w) = fst (hashToUint32 E t w') \<and>
     sameDraws (snd (hashToUint32 E t w)) (snd (hashToUint32 E t w'))"
  using sha256Stage_same [of w w' E t]
  by (auto simp: hashToUint32_def fnvStage_def Let_def split: prod.splits sum.splits)

lemma hashToUint32_untouched: "storeUntouched w (snd (hashToUint32 E t w))"
  using sha256Stage_untouched [of w E t]
  by (auto simp: hashToUint32_def fnvStage_def Let_def storeUntouched_def isStoreEvent_def
           split: prod.splits sum.splits)

lemma getHashBasedBucket_same:
  "sameDraws w w' \<Longrightarrow> fst (getHashBasedBucket E w) = fst (getHashBasedBucket E w')"
proof -
  assume s: "sameDraws w w'"
  obtain k w1 where a: "buildHashInput E w = (k, w1)" by (cases "buildHashInput E w")
  obtain k' w1' where b: "buildHashInput E w' = (k', w1')" by (cases "buildHashInput E w'")
  from buildHashInput_same [OF s, of E] a b have kk: "k' = k" "sameDraws w1 w1'" by simp_all
  from hashToUint32_same [OF kk(2), of E k] show ?thesis
    by (auto simp: getHashBasedBucket_def a b kk split: prod.splits sum.splits)
qed

lemma getHashBasedBucket_untouched: "storeUntouched w (snd (getHashBasedBucket E w))"
proof -
  obtain k w1 where a: "buildHashInput E w = (k, w1)" by (cases "buildHashInput E w")
  from buildHashInput_untouched [of w E] a have 1: "storeUntouched w w1" by simp
  have 2: "storeUntouched w1 (snd (hashToUint32 E k w1))" by (rule hashToUint32_untouched)
  have "snd (getHashBasedBucket E w) = snd (hashToUint32 E k w1)"
    by (auto simp: getHashBasedBucket_def a split: prod.splits sum.splits)
  with storeUntouched_trans [OF 1 2] show ?thesis by simp
qed

section \<open>The hash chain\<close>

lemma hashToUint32_returns:
  "\<exists>v w'. hashToUint32 E t w = (Inr v, w') \<and> 0 \<le> v \<and> v \<le> 4294967295"
proof (cases "sha256Stage E t w")
  case (Pair r w1)
  show ?thesis
  proof (cases r)
    case (Inl e)
    with Pair show ?thesis
      by (simp add: hashToUint32_def fnvStage_def fnv1a32_def ToUint32_range Let_def)
  next
    case (Inr v)
    with Pair have "v = ToUint32 v"
      by (auto simp: sha256Stage_def firstUint32_def ToUint32_def
               split: sum.splits option.splits if_splits)
    with Pair Inr show ?thesis
      using ToUint32_range [of v] by (simp add: hashToUint32_def)
  qed
qed

lemma randomStage_returns:
  "\<exists>v w'. randomStage E w = (Inr v, w') \<and> 0 \<le> v \<and> v \<le> 4294967295"
  by (simp add: randomStage_def Math_random_draw_def ToUint32_range split: option.splits)

lemma js_A_B [simp]: "js ''A'' \<noteq> js ''B''" "js ''A'' \<noteq> []" "js ''B'' \<noteq> []"
  by (simp_all add: js_def)

lemma bucketOfScore_cases: "bucketOfScore s = js ''A'' \<or> bucketOfScore s = js ''B''"
  by (simp add: bucketOfScore_def)

lemma bucketOfScore_nonempty [simp]: "bucketOfScore s \<noteq> []"
  by (simp add: bucketOfScore_def)

text \<open>
  C2. For every input string, every environment and every state, \<open>hashToUint32\<close>
  returns normally with a number in \<open>[0, 2^32 - 1]\<close>: whichever of the encoder, the
  digest, the \<open>DataView\<close> and the secure random source fail, no exception leaves the
  function. The last stage on its own also always returns such a number.
\<close>

theorem hashToUint32_never_fails:
  "(\<exists>v w'. hashToUint32 E text w = (Inr v, w') \<and> 0 \<le> v \<and> v \<le> 4294967295) \<and>
   (\<exists>v w'. randomStage E w = (Inr v, w') \<and> 0 \<le> v \<and> v \<le> 4294967295)"
  using hashToUint32_returns [of E "text" w] randomStage_returns [of E w] by simp

text \<open>
  C4. When the first stage of the hash chain raises, \<open>hashToUint32\<close> returns the 32-bit
  FNV-1a hash of the UTF-16 code units of its input: the accumulator starts at
  \<open>0x811c9dc5\<close>, each code unit is XORed in and the accumulator then becomes
  \<open>h + (h<<1) + (h<<4) + (h<<7) + (h<<8) + (h<<24)\<close> modulo \<open>2^32\<close>, which is
  \<open>h * 16777619\<close> modulo \<open>2^32\<close>. The result depends on the input string alone.
\<close>

theorem hashToUint32_fnv_fallback:
  assumes "fst (sha256Stage E text w) = Inl e"
  shows "fst (hashToUint32 E text w) = Inr (int (fnv1a_spec text)) \<and>
         (\<forall>h. fnv_update_spec h = h * 16777619 mod 2 ^ 32)"
  using assms
  by (cases "sha256Stage E text w")
     (simp add: hashToUint32_def fnvStage_def fnv1a32_spec fnv_update_spec_mult Let_def)

theorem hashToUint32_fnv_fallback_witness:
  "fst (sha256Stage exampleEnv (js ''1.2.3.4|test-agent'') emptyWorld) = Inl DigestFailure \<and>
   fst (hashToUint32 exampleEnv (js ''1.2.3.4|test-agent'') emptyWorld) = Inr 566215699"
proof -
  have h: "fst (sha256Stage exampleEnv (js ''1.2.3.4|test-agent'') emptyWorld) = Inl DigestFailure"
    by (simp add: sha256Stage_def utf8Bytes_def exampleEnv_def)
  have v: "int (fnv1a_spec (js ''1.2.3.4|test-agent'')) = 566215699"
    by (simp add: fnv1a_spec_def js_def fnv_update_spec_def)
  show ?thesis
    using hashToUint32_fnv_fallback [OF h] h v by simp
qed

text \<open>
  C7. \<open>getHashBasedBucket\<close> neither reads nor writes the store: the contents of the
  store are the same after the call, no call on the store is added to the trace, and
  the result is the same whatever the store holds and whatever was traced before.
\<close>

theorem getHashBasedBucket_store_frame:
  "storage (snd (getHashBasedBucket E w)) = storage w \<and>
   filter isStoreEvent (events (snd (getHashBasedBucket E w))) = filter isStoreEvent (events w) \<and>
   fst (getHashBasedBucket E (w\<lparr>storage := s, events := evs\<rparr>)) = fst (getHashBasedBucket E w)"
  using getHashBasedBucket_untouched [of w E]
        getHashBasedBucket_same [of "w\<lparr>storage := s, events := evs\<rparr>" w E]
  by (simp add: storeUntouched_def)

section \<open>The orchestrator\<close>

lemma keys_distinct [simp]:
  "FAIR_BUCKET_STORAGE_KEY \<noteq> FAIR_BUCKET_MANUAL_KEY"
  "FAIR_BUCKET_MANUAL_KEY \<noteq> FAIR_BUCKET_STORAGE_KEY"
  by (simp_all add: FAIR_BUCKET_STORAGE_KEY_def FAIR_BUCKET_MANUAL_KEY_def js_def)

lemma getSavedBucket_world: "snd (getSavedBucket E w) =
    (if getItem_throws E
     then emit (Console Warn ''[Splitter] localStorage access failed:'')
            (emit (GetItem FAIR_BUCKET_STORAGE_KEY) w)
     else emit (GetItem FAIR_BUCKET_STORAGE_KEY) w)"
  by (simp add: getSavedBucket_def getItem_def)

lemma getSavedBucket_Some:
  "fst (getSavedBucket E w) = Some v \<Longrightarrow>
     getSavedBucket E w = (Some v, emit (GetItem FAIR_BUCKET_STORAGE_KEY) w) \<and>
     storage w FAIR_BUCKET_STORAGE_KEY = Some v"
  by (simp add: getSavedBucket_def getItem_def split: if_splits)

lemma getSavedBucket_reads:
  "\<not> getItem_throws E \<Longrightarrow>
     getSavedBucket E w = (storage w FAIR_BUCKET_STORAGE_KEY, emit (GetItem FAIR_BUCKET_STORAGE_KEY) w)"
  by (simp add: getSavedBucket_def getItem_def)

lemma isManualOverride_world:
  "snd (isManualOverride E w) = emit (GetItem FAIR_BUCKET_MANUAL_KEY) w"
  by (simp add: isManualOverride_def getItem_def)

lemma isManualOverride_reads:
  "\<not> getItem_throws E \<Longrightarrow>
     fst (isManualOverride E w) \<longleftrightarrow> storage w FAIR_BUCKET_MANUAL_KEY = Some (js ''true'')"
  by (simp add: isManualOverride_def getItem_def)

text \<open>The path of \<open>assignFairBucket\<close> that loads a stored, non-empty value.\<close>

lemma assignFairBucket_existing:
  assumes "fst (getSavedBucket E w) = Some v" and "v \<noteq> []"
  shows "assignFairBucket E w =
           (Inr v, emit (Console Log ''[Splitter] Loaded existing bucket:'')
                     (emit (GetItem FAIR_BUCKET_MANUAL_KEY)
                        (emit (GetItem FAIR_BUCKET_STORAGE_KEY) w)))"
proof -
  from getSavedBucket_Some [OF assms(1)]
  have g: "getSavedBucket E w = (Some v, emit (GetItem FAIR_BUCKET_STORAGE_KEY) w)" by simp
  obtain m w2 where i: "isManualOverride E (emit (GetItem FAIR_BUCKET_STORAGE_KEY) w) = (m, w2)"
    by (cases "isManualOverride E (emit (GetItem FAIR_BUCKET_STORAGE_KEY) w)")
  with isManualOverride_world [of E "emit (GetItem FAIR_BUCKET_STORAGE_KEY) w"]
  have "w2 = emit (GetItem FAIR_BUCKET_MANUAL_KEY) (emit (GetItem FAIR_BUCKET_STORAGE_KEY) w)"
    by simp
  with g i assms(2) show ?thesis by (simp add: assignFairBucket_def)
qed

text \<open>The path that computes a new bucket is taken when nothing, or the empty string,
  is loaded.\<close>

lemma assignFairBucket_new:
  assumes "fst (getSavedBucket E w) = None \<or> fst (getSavedBucket E w) = Some []"
  shows "assignFairBucket E w = assignNewBucket E (snd (getSavedBucket E w))"
  using assms by (cases "getSavedBucket E w") (auto simp: assignFairBucket_def)

lemma isSetItem_isStoreEvent: "isSetItem ev \<Longrightarrow> isStoreEvent ev"
  by (cases ev) (simp_all add: isSetItem_def isStoreEvent_def)

lemma storeUntouched_writes:
  assumes "storeUntouched w w'"
  shows "storeWrites (events w') = storeWrites (events w)"
proof -
  have f: "filter isSetItem evs = filter isSetItem (filter isStoreEvent evs)" for evs
    by (induction evs) (auto dest: isSetItem_isStoreEvent)
  have "filter isSetItem (events w') = filter isSetItem (filter isStoreEvent (events w'))"
    by (rule f)
  also have "\<dots> = filter isSetItem (filter isStoreEvent (events w))"
    using assms by (simp add: storeUntouched_def)
  also have "\<dots> = filter isSetItem (events w)"
    by (rule f [symmetric])
  finally show ?thesis by (simp add: storeWrites_def)
qed

lemma storeWrites_snoc:
  "storeWrites (evs @ [ev]) = storeWrites evs + (if isSetItem ev then 1 else 0)"
  by (simp add: storeWrites_def)

lemma saveBucket_effect:
  "storage (saveBucket E b w) FAIR_BUCKET_STORAGE_KEY =
     (if setItem_throws E then storage w FAIR_BUCKET_STORAGE_KEY else Some b) \<and>
   storeWrites (events (saveBucket E b w)) = storeWrites (events w) + 1 \<and>
   sameDraws (saveBucket E b w) w"
  by (simp add: saveBucket_def setItem_def storeWrites_def isSetItem_def sameDraws_def)

lemma setManualOverride_False_effect:
  "storage (setManualOverride E False w) FAIR_BUCKET_STORAGE_KEY = storage w FAIR_BUCKET_STORAGE_KEY \<and>
   storeWrites (events (setManualOverride E False w)) = storeWrites (events w) \<and>
   sameDraws (setManualOverride E False w) w"
  by (simp add: setManualOverride_def removeItem_def storeWrites_def isSetItem_def sameDraws_def)

text \<open>What the new-bucket path returns and leaves behind: the bucket of a score of the
  hash chain, equal to what \<open>getHashBasedBucket\<close> returns from a state with the same
  draws; one \<open>setItem\<close> call; and the bucket in the store when \<open>setItem\<close> works.\<close>

lemma assignNewBucket_effect:
  "\<exists>s. 0 \<le> s \<and> s \<le> 4294967295 \<and>
       fst (assignNewBucket E w) = Inr (bucketOfScore s) \<and>
       fst (getHashBasedBucket E w) = Inr (bucketOfScore s) \<and>
       (\<not> setItem_throws E \<longrightarrow>
          storage (snd (assignNewBucket E w)) FAIR_BUCKET_STORAGE_KEY = Some (bucketOfScore s)) \<and>
       storeWrites (events (snd (assignNewBucket E w))) = storeWrites (events w) + 1"
proof -
  obtain k w1 where a: "buildHashInput E w = (k, w1)" by (cases "buildHashInput E w")
  obtain s w2 where b: "hashToUint32 E k w1 = (Inr s, w2)" "0 \<le> s" "s \<le> 4294967295"
    using hashToUint32_returns [of E k w1] by blast
  have u1: "storeUntouched w w1"
    using buildHashInput_untouched [of w E] a by simp
  have u2: "storeUntouched w1 w2"
    using hashToUint32_untouched [of w1 E k] b by simp
  have wr: "storeWrites (events w2) = storeWrites (events w)"
    using storeUntouched_writes [OF storeUntouched_trans [OF u1 u2]] .
  define w3 where "w3 = saveBucket E (bucketOfScore s) w2"
  define w4 where "w4 = setManualOverride E False w3"
  have r: "assignNewBucket E w =
             (Inr (bucketOfScore s), emit (Console Log ''[Splitter] New assignment:'') w4)"
    by (simp add: assignNewBucket_def a b w3_def w4_def Let_def)
  have g: "fst (getHashBasedBucket E w) = Inr (bucketOfScore s)"
    by (simp add: getHashBasedBucket_def a b)
  have st: "\<not> setItem_throws E \<Longrightarrow> storage w4 FAIR_BUCKET_STORAGE_KEY = Some (bucketOfScore s)"
    using saveBucket_effect [of E "bucketOfScore s" w2] setManualOverride_False_effect [of E w3]
    by (simp add: w3_def w4_def)
  have ev: "storeWrites (events w4) = storeWrites (events w) + 1"
    using saveBucket_effect [of E "bucketOfScore s" w2] setManualOverride_False_effect [of E w3] wr
    by (simp add: w3_def w4_def)
  show ?thesis
    using b(2,3) r g st ev by (intro exI [of _ s]) (simp add: storeWrites_snoc isSetItem_def)
qed

section \<open>The example environment, evaluated\<close>

lemma trim_ip: "trim (js ''1.2.3.4'') = js ''1.2.3.4''"
  by (simp add: trim_def js_def isWhiteSpace_def)

lemma trim_key: "trim (js ''1.2.3.4'' @ js ''|'' @ js ''test-agent'') = js ''1.2.3.4|test-agent''"
  by (simp add: trim_def js_def isWhiteSpace_def)

lemma ip_nonempty: "js ''1.2.3.4'' \<noteq> []"
  by (simp add: js_def)

lemma example_key:
  "buildHashInput exampleEnv w = (js ''1.2.3.4|test-agent'', emit GeoIPCall w)"
  by (simp add: buildHashInput_def getMyIpAddress_def exampleEnv_def trim_ip trim_key ip_nonempty Let_def)

lemma example_score:
  "fst (hashToUint32 exampleEnv (js ''1.2.3.4|test-agent'') w) = Inr 566215699"
proof -
  have h: "fst (sha256Stage exampleEnv (js ''1.2.3.4|test-agent'') w) = Inl DigestFailure"
    by (simp add: sha256Stage_def utf8Bytes_def exampleEnv_def)
  have v: "int (fnv1a_spec (js ''1.2.3.4|test-agent'')) = 566215699"
    by (simp add: fnv1a_spec_def js_def fnv_update_spec_def)
  have "fst (hashToUint32 exampleEnv (js ''1.2.3.4|test-agent'') w)
          = Inr (fnv1a32 (js ''1.2.3.4|test-agent''))"
    using h by (cases "sha256Stage exampleEnv (js ''1.2.3.4|test-agent'') w")
               (simp add: hashToUint32_def fnvStage_def Let_def)
  then show ?thesis by (simp add: fnv1a32_spec v)
qed

lemma example_peek: "fst (getHashBasedBucket exampleEnv w) = Inr (js ''B'')"
  using example_score [of "emit GeoIPCall w"]
  by (cases "hashToUint32 exampleEnv (js ''1.2.3.4|test-agent'') (emit GeoIPCall w)")
     (simp add: getHashBasedBucket_def example_key bucketOfScore_def EXACT_MIDDLE_POINT_def)

lemma example_assignNew: "fst (assignNewBucket exampleEnv w) = Inr (js ''B'')"
  using assignNewBucket_effect [of exampleEnv w] example_peek [of w] by auto

lemma example_flags [simp]:
  "\<not> getItem_throws exampleEnv" "\<not> setItem_throws exampleEnv" "\<not> removeItem_throws exampleEnv"
  by (simp_all add: exampleEnv_def)

lemma worldWith_storage [simp]:
  "storage (worldWith a m) FAIR_BUCKET_STORAGE_KEY = a"
  "storage (worldWith a m) FAIR_BUCKET_MANUAL_KEY = m"
  by (simp_all add: worldWith_def emptyWorld_def)

lemma emptyWorld_storage [simp]: "storage emptyWorld k = None"
  by (simp add: emptyWorld_def)

section \<open>The manual UTF-8 encoder\<close>

lemma below_16_cases:
  assumes "n < (16::nat)"
  obtains "n = 0" | "n = 1" | "n = 2" | "n = 3" | "n = 4" | "n = 5" | "n = 6" | "n = 7"
    | "n = 8" | "n = 9" | "n = 10" | "n = 11" | "n = 12" | "n = 13" | "n = 14" | "n = 15"
proof -
  have "n \<in> {0..<16}" using assms by simp
  also have "{0..<16::nat} = {0,1,2,3,4,5,6,7,8,9,10,11,12,13,14,15}"
    by (simp add: atLeastLessThan_nat_numeral lessThan_Suc atLeast0LessThan insert_commute)
  finally show ?thesis using that by blast
qed

lemma hexDigit_props:
  assumes "n < 16"
  shows "isHexDigit (hexDigit n) \<and> \<not> isWhiteSpace (hexDigit n) \<and>
         hexDigit n \<noteq> 0x2B \<and> hexDigit n \<noteq> 0x2D \<and>
         hexDigit n \<noteq> 0x78 \<and> hexDigit n \<noteq> 0x58 \<and>
         hexValue (hexDigit n) = int n"
  using assms
  by (cases n rule: below_16_cases)
     (simp_all add: hexDigit_def isHexDigit_def isWhiteSpace_def hexValue_def)

lemma parseInt16_hex_pair:
  assumes "a < 16" and "b < 16"
  shows "parseInt16 [hexDigit a, hexDigit b] = Num (16 * int a + int b)"
  using hexDigit_props [OF assms(1)] hexDigit_props [OF assms(2)]
  by (simp add: parseInt16_def Let_def)

lemma byte_split: "16 * int (unat (b::byte) div 16) + int (unat b mod 16) = uint b"
proof -
  have "16 * (uint b div 16) + uint b mod 16 = uint b" by simp
  then show ?thesis by (simp add: zdiv_int zmod_int)
qed

lemma loop_percentEscape:
  "strToUtf8Bytes_loop (percentEscape b @ rest) = Num (uint b) # strToUtf8Bytes_loop rest"
proof -
  have "unat b < 256"
    using unsigned_less [of b, where 'a = nat] by simp
  then have d: "unat b div 16 < 16"
    by simp
  have m: "unat b mod 16 < 16"
    by simp
  have p: "parseInt16 [hexDigit (unat b div 16), hexDigit (unat b mod 16)] = Num (uint b)"
    using parseInt16_hex_pair [OF d m] by (simp only: byte_split)
  have "strToUtf8Bytes_loop (percentEscape b @ rest)
          = parseInt16 (substr 0 2 (hexDigit (unat b div 16) # hexDigit (unat b mod 16) # rest))
              # strToUtf8Bytes_loop (drop 2 (hexDigit (unat b div 16) # hexDigit (unat b mod 16) # rest))"
    by (simp add: percentEscape_def)
  also have "\<dots> = Num (uint b) # strToUtf8Bytes_loop rest"
    by (simp add: substr_def p del: strToUtf8Bytes_loop.simps)
  finally show ?thesis .
qed

lemma loop_percentEscapes:
  "strToUtf8Bytes_loop (concat (map percentEscape bs) @ rest)
     = map (\<lambda>b. Num (uint b)) bs @ strToUtf8Bytes_loop rest"
  by (induction bs) (simp_all add: loop_percentEscape del: strToUtf8Bytes_loop.simps)

lemma uriUnescaped_ascii:
  assumes "uriUnescaped c"
  shows "unat c < 128" and "c \<noteq> 0x25"
  using assms by (auto simp: uriUnescaped_def word_le_nat_alt)

lemma ascii_not_surrogate:
  assumes "unat c < 128"
  shows "\<not> isLeadSurrogate c" and "\<not> isTrailSurrogate c"
  using assms by (auto simp: isLeadSurrogate_def isTrailSurrogate_def word_le_nat_alt)

lemma ascii_utf8:
  assumes "unat (c::code_unit) < 128"
  shows "map (\<lambda>b. Num (uint b)) (utf8_encode_code_point (unat c)) = [Num (uint c)]"
proof -
  have "uint (of_nat (unat c) :: byte) = uint c"
    using assms by (simp add: uint_nat unat_of_nat del: of_nat_unat)
  with assms show ?thesis by (simp add: utf8_encode_code_point_def)
qed

text \<open>On a well-formed string \<open>encodeURIComponent\<close> returns, and the loop of
  \<open>strToUtf8Bytes\<close> reads back from its result the bytes of the standard encoding.\<close>

lemma strToUtf8Bytes_loop_encodeURIComponent:
  "well_formed s \<Longrightarrow>
     \<exists>enc. encodeURIComponent s = Inr enc \<and>
           strToUtf8Bytes_loop enc = map (\<lambda>b. Num (uint b)) (TextEncoder_encode s)"
proof (induction s rule: well_formed.induct)
  case 1
  show ?case by simp
next
  case (2 c cs)
  show ?case
  proof (cases "\<not> isLeadSurrogate c \<and> \<not> isTrailSurrogate c")
    case True
    with "2.prems" have wf: "well_formed cs" by simp
    from "2.IH"(1) [OF True wf] obtain r where
      r: "encodeURIComponent cs = Inr r"
         "strToUtf8Bytes_loop r = map (\<lambda>b. Num (uint b)) (TextEncoder_encode cs)"
      by blast
    show ?thesis
    proof (cases "uriUnescaped c")
      case u: True
      have "strToUtf8Bytes_loop (c # r) = Num (uint c) # strToUtf8Bytes_loop r"
        using uriUnescaped_ascii(2) [OF u] by simp
      with True u r ascii_utf8 [OF uriUnescaped_ascii(1) [OF u]] show ?thesis
        by simp
    next
      case False
      with True r show ?thesis
        by (simp add: loop_percentEscapes)
    qed
  next
    case False
    with "2.prems" have lead: "isLeadSurrogate c" "\<not> isTrailSurrogate c"
      by (auto split: if_splits)
    from False "2.prems" obtain d ds where
      cs: "cs = d # ds" and d: "isTrailSurrogate d" and wf: "well_formed ds"
      by (cases cs) (auto split: if_splits)
    have nu: "\<not> uriUnescaped c"
      using ascii_not_surrogate(1) [OF uriUnescaped_ascii(1)] lead(1) by blast
    from "2.IH"(2) [OF False lead(2) cs wf] obtain r where
      r: "encodeURIComponent ds = Inr r"
         "strToUtf8Bytes_loop r = map (\<lambda>b. Num (uint b)) (TextEncoder_encode ds)"
      by blast
    from lead d nu cs r show ?thesis
      by (simp add: loop_percentEscapes)
  qed
qed

lemma strToUtf8Bytes_standard:
  assumes "well_formed s"
  shows "strToUtf8Bytes s = Inr (map (\<lambda>b. Num (uint b)) (TextEncoder_encode s))"
  using strToUtf8Bytes_loop_encodeURIComponent [OF assms]
  by (auto simp: strToUtf8Bytes_def)

lemma ToUint8_byte: "ToUint8 (Num (uint (b::byte))) = b"
proof -
  have "uint b mod 256 = uint b"
    using uint_lt2p [of b] by simp
  then show ?thesis by (simp add: ToUint8_def)
qed

lemma utf8Bytes_standard:
  assumes "well_formed s"
  shows "utf8Bytes E s = Inr (TextEncoder_encode s)"
proof -
  have "map ToUint8 (map (\<lambda>b. Num (uint b)) bs) = bs" for bs :: "byte list"
    by (induction bs) (simp_all add: ToUint8_byte)
  then show ?thesis
    by (simp add: utf8Bytes_def strToUtf8Bytes_standard [OF assms])
qed

section \<open>The bucket mapper at its two call sites\<close>

text \<open>The score that decides the bucket is the one the hash chain returns for the
  identity key just built.\<close>

lemma bucket_of_hash_score:
  "\<exists>key w1 s w2.
      buildHashInput E w = (key, w1) \<and> hashToUint32 E key w1 = (Inr s, w2) \<and>
      0 \<le> s \<and> s \<le> 4294967295 \<and>
      fst (getHashBasedBucket E w) = Inr (bucketOfScore s) \<and>
      fst (assignNewBucket E w) = Inr (bucketOfScore s)"
proof -
  obtain k w1 where a: "buildHashInput E w = (k, w1)" by (cases "buildHashInput E w")
  obtain s w2 where b: "hashToUint32 E k w1 = (Inr s, w2)" "0 \<le> s" "s \<le> 4294967295"
    using hashToUint32_returns [of E k w1] by blast
  have g: "fst (getHashBasedBucket E w) = Inr (bucketOfScore s)"
    by (simp add: getHashBasedBucket_def a b)
  have n: "fst (assignNewBucket E w) = Inr (bucketOfScore s)"
    by (simp add: assignNewBucket_def a b Let_def)
  from a b g n show ?thesis by blast
qed

lemma digestEnv_score:
  "fst (hashToUint32 (digestEnv [a, b, c, d]) key w) =
     Inr (uint a * 16777216 + uint b * 65536 + uint c * 256 + uint d)"
proof -
  have r: "0 \<le> uint a * 16777216 + uint b * 65536 + uint c * 256 + uint d"
    by simp
  have "uint a \<le> 255" "uint b \<le> 255" "uint c \<le> 255" "uint d \<le> 255"
    using uint_lt2p [of a] uint_lt2p [of b] uint_lt2p [of c] uint_lt2p [of d] by simp_all
  then have "uint a * 16777216 + uint b * 65536 + uint c * 256 + uint d < 4294967296"
    by simp
  with r have "ToUint32 (uint a * 16777216 + uint b * 65536 + uint c * 256 + uint d)
                 = uint a * 16777216 + uint b * 65536 + uint c * 256 + uint d"
    by (simp add: ToUint32_def)
  then show ?thesis
    by (simp add: hashToUint32_def sha256Stage_def utf8Bytes_def digestEnv_def exampleEnv_def
          firstUint32_def getUint32_def)
qed

lemma digestEnv_store [simp]:
  "\<not> getItem_throws (digestEnv bs)" "\<not> setItem_throws (digestEnv bs)"
  by (simp_all add: digestEnv_def exampleEnv_def)

text \<open>
  C1. The bucket mapper is the threshold function on the score: for every score in
  \<open>[0, 2^32 - 1]\<close>, a score of at least 2147483648 gives \<open>"A"\<close> and a smaller one gives
  \<open>"B"\<close>, two different strings. Both places that apply it do so to the score that the
  hash chain returns for the identity key just built: \<open>getHashBasedBucket\<close> (line 154)
  returns \<open>"A"\<close> when that score is at least 2147483648 and \<open>"B"\<close> when it is smaller,
  and so does \<open>assignFairBucket\<close> (line 47) whenever it loads nothing, or the empty
  string, from the store.
\<close>

theorem bucket_mapper_threshold:
  "(0 \<le> score \<and> score \<le> 4294967295 \<longrightarrow>
      (score \<ge> 2147483648 \<longrightarrow> bucketOfScore score = js ''A'') \<and>
      (score < 2147483648 \<longrightarrow> bucketOfScore score = js ''B'')) \<and>
   js ''A'' \<noteq> js ''B'' \<and>
   (\<exists>key w1 s w2.
      buildHashInput E w = (key, w1) \<and> hashToUint32 E key w1 = (Inr s, w2) \<and>
      0 \<le> s \<and> s \<le> 4294967295 \<and>
      (s \<ge> 2147483648 \<longrightarrow> fst (getHashBasedBucket E w) = Inr (js ''A'')) \<and>
      (s < 2147483648 \<longrightarrow> fst (getHashBasedBucket E w) = Inr (js ''B''))) \<and>
   (fst (getSavedBucket E w) = None \<or> fst (getSavedBucket E w) = Some [] \<longrightarrow>
      (\<exists>key w1 s w2.
         buildHashInput E (snd (getSavedBucket E w)) = (key, w1) \<and>
         hashToUint32 E key w1 = (Inr s, w2) \<and> 0 \<le> s \<and> s \<le> 4294967295 \<and>
         (s \<ge> 2147483648 \<longrightarrow> fst (assignFairBucket E w) = Inr (js ''A'')) \<and>
         (s < 2147483648 \<longrightarrow> fst (assignFairBucket E w) = Inr (js ''B''))))"
proof (intro conjI impI)
  assume "0 \<le> score \<and> score \<le> 4294967295" and "2147483648 \<le> score"
  then show "bucketOfScore score = js ''A''"
    by (simp add: bucketOfScore_def EXACT_MIDDLE_POINT_def)
next
  assume "0 \<le> score \<and> score \<le> 4294967295" and "score < 2147483648"
  then show "bucketOfScore score = js ''B''"
    by (simp add: bucketOfScore_def EXACT_MIDDLE_POINT_def)
next
  show "js ''A'' \<noteq> js ''B''" by simp
next
  from bucket_of_hash_score [of E w] obtain key w1 s w2 where
    h: "buildHashInput E w = (key, w1)" "hashToUint32 E key w1 = (Inr s, w2)"
       "0 \<le> s" "s \<le> 4294967295"
       "fst (getHashBasedBucket E w) = Inr (bucketOfScore s)"
    by blast
  then show "\<exists>key w1 s w2.
      buildHashInput E w = (key, w1) \<and> hashToUint32 E key w1 = (Inr s, w2) \<and>
      0 \<le> s \<and> s \<le> 4294967295 \<and>
      (s \<ge> 2147483648 \<longrightarrow> fst (getHashBasedBucket E w) = Inr (js ''A'')) \<and>
      (s < 2147483648 \<longrightarrow> fst (getHashBasedBucket E w) = Inr (js ''B''))"
    by (intro exI [of _ key] exI [of _ w1] exI [of _ s] exI [of _ w2])
       (simp add: bucketOfScore_def EXACT_MIDDLE_POINT_def)
next
  assume n: "fst (getSavedBucket E w) = None \<or> fst (getSavedBucket E w) = Some []"
  from bucket_of_hash_score [of E "snd (getSavedBucket E w)"] obtain key w1 s w2 where
    h: "buildHashInput E (snd (getSavedBucket E w)) = (key, w1)"
       "hashToUint32 E key w1 = (Inr s, w2)" "0 \<le> s" "s \<le> 4294967295"
       "fst (assignNewBucket E (snd (getSavedBucket E w))) = Inr (bucketOfScore s)"
    by blast
  with assignFairBucket_new [OF n]
  show "\<exists>key w1 s w2.
         buildHashInput E (snd (getSavedBucket E w)) = (key, w1) \<and>
         hashToUint32 E key w1 = (Inr s, w2) \<and> 0 \<le> s \<and> s \<le> 4294967295 \<and>
         (s \<ge> 2147483648 \<longrightarrow> fst (assignFairBucket E w) = Inr (js ''A'')) \<and>
         (s < 2147483648 \<longrightarrow> fst (assignFairBucket E w) = Inr (js ''B''))"
    by (intro exI [of _ key] exI [of _ w1] exI [of _ s] exI [of _ w2])
       (simp add: bucketOfScore_def EXACT_MIDDLE_POINT_def)
qed

theorem bucket_mapper_threshold_witness:
  "(0::int) \<le> 2147483648 \<and> (2147483648::int) \<le> 4294967295 \<and>
   (0::int) \<le> 4294967295 \<and> (0::int) \<le> 0 \<and> (0::int) \<le> 2147483647 \<and>
   bucketOfScore 2147483648 = js ''A'' \<and> bucketOfScore 4294967295 = js ''A'' \<and>
   bucketOfScore 0 = js ''B'' \<and> bucketOfScore 2147483647 = js ''B'' \<and>
   fst (getHashBasedBucket (digestEnv [0x80, 0, 0, 0]) emptyWorld) = Inr (js ''A'') \<and>
   fst (getHashBasedBucket (digestEnv [0x7F, 0xFF, 0xFF, 0xFF]) emptyWorld) = Inr (js ''B'') \<and>
   fst (getSavedBucket (digestEnv [0x80, 0, 0, 0]) emptyWorld) = None \<and>
   fst (assignFairBucket (digestEnv [0x80, 0, 0, 0]) emptyWorld) = Inr (js ''A'') \<and>
   fst (getSavedBucket (digestEnv [0x7F, 0xFF, 0xFF, 0xFF]) (worldWith (Some []) None))
     = Some [] \<and>
   fst (assignFairBucket (digestEnv [0x7F, 0xFF, 0xFF, 0xFF]) (worldWith (Some []) None))
     = Inr (js ''B'')"
proof -
  have hi: "fst (hashToUint32 (digestEnv [0x80, 0, 0, 0]) key u) = Inr 2147483648" for key u
    using digestEnv_score [of "0x80" 0 0 0 key u] by simp
  have lo: "fst (hashToUint32 (digestEnv [0x7F, 0xFF, 0xFF, 0xFF]) key u) = Inr 2147483647"
    for key u
    using digestEnv_score [of "0x7F" "0xFF" "0xFF" "0xFF" key u] by simp
  have g1: "fst (getSavedBucket (digestEnv [0x80, 0, 0, 0]) emptyWorld) = None"
    by (simp add: getSavedBucket_reads)
  have g2: "fst (getSavedBucket (digestEnv [0x7F, 0xFF, 0xFF, 0xFF]) (worldWith (Some []) None))
              = Some []"
    by (simp add: getSavedBucket_reads)
  have p: "bucketOfScore 2147483648 = js ''A'' \<and> bucketOfScore 4294967295 = js ''A'' \<and>
           bucketOfScore 0 = js ''B'' \<and> bucketOfScore 2147483647 = js ''B''"
    using bucket_mapper_threshold [of 2147483648 exampleEnv emptyWorld]
          bucket_mapper_threshold [of 4294967295 exampleEnv emptyWorld]
          bucket_mapper_threshold [of 0 exampleEnv emptyWorld]
          bucket_mapper_threshold [of 2147483647 exampleEnv emptyWorld]
    by simp
  have a1: "fst (getHashBasedBucket (digestEnv [0x80, 0, 0, 0]) emptyWorld) = Inr (js ''A'')"
       and a2: "fst (assignFairBucket (digestEnv [0x80, 0, 0, 0]) emptyWorld) = Inr (js ''A'')"
    using bucket_mapper_threshold [of 0 "digestEnv [0x80, 0, 0, 0]" emptyWorld] g1
          hi [of _ emptyWorld] hi
    by (auto dest!: arg_cong [where f = fst])
  have b1: "fst (getHashBasedBucket (digestEnv [0x7F, 0xFF, 0xFF, 0xFF]) emptyWorld)
              = Inr (js ''B'')"
    using bucket_mapper_threshold [of 0 "digestEnv [0x7F, 0xFF, 0xFF, 0xFF]" emptyWorld] lo
    by (auto dest!: arg_cong [where f = fst])
  have b2: "fst (assignFairBucket (digestEnv [0x7F, 0xFF, 0xFF, 0xFF]) (worldWith (Some []) None))
              = Inr (js ''B'')"
    using bucket_mapper_threshold [of 0 "digestEnv [0x7F, 0xFF, 0xFF, 0xFF]"
            "worldWith (Some []) None"] g2 lo
    by (auto dest!: arg_cong [where f = fst])
  show ?thesis
    using p g1 g2 a1 a2 b1 b2 by simp
qed

section \<open>Claims about the orchestrator\<close>

lemma emit_update: "emit ev w = w\<lparr>events := events w @ [ev]\<rparr>"
  by (simp add: emit_def)

text \<open>
  C3. If \<open>getSavedBucket\<close> returns a non-empty string, \<open>assignFairBucket\<close> returns exactly
  that string, and the only things it does are two reads of the store and one console
  line: nothing is recomputed and nothing is written. Hence, when \<open>getItem\<close> and
  \<open>setItem\<close> work, two calls in succession return the same bucket, and together they
  call \<open>setItem\<close> at most once.
\<close>

theorem assignFairBucket_idempotent:
  "(fst (getSavedBucket E w) = Some v \<and> v \<noteq> [] \<longrightarrow>
      assignFairBucket E w =
        (Inr v, w\<lparr>events := events w @
                  [GetItem FAIR_BUCKET_STORAGE_KEY, GetItem FAIR_BUCKET_MANUAL_KEY,
                   Console Log ''[Splitter] Loaded existing bucket:'']\<rparr>)) \<and>
   (\<not> getItem_throws E \<and> \<not> setItem_throws E \<longrightarrow>
      (\<exists>b. fst (assignFairBucket E w) = Inr b \<and>
           fst (assignFairBucket E (snd (assignFairBucket E w))) = Inr b) \<and>
      storeWrites (events (snd (assignFairBucket E (snd (assignFairBucket E w)))))
        \<le> storeWrites (events w) + 1)"
proof (rule conjI; rule impI)
  assume "fst (getSavedBucket E w) = Some v \<and> v \<noteq> []"
  then show "assignFairBucket E w =
        (Inr v, w\<lparr>events := events w @
                  [GetItem FAIR_BUCKET_STORAGE_KEY, GetItem FAIR_BUCKET_MANUAL_KEY,
                   Console Log ''[Splitter] Loaded existing bucket:'']\<rparr>)"
    using assignFairBucket_existing [of E w v] by (simp add: emit_update)
next
  assume ok: "\<not> getItem_throws E \<and> \<not> setItem_throws E"
  define w' where "w' = snd (assignFairBucket E w)"
  have again: "fst (assignFairBucket E u) = Inr b \<and>
               storeWrites (events (snd (assignFairBucket E u))) = storeWrites (events u)"
    if "storage u FAIR_BUCKET_STORAGE_KEY = Some b" "b \<noteq> []" for u b
  proof -
    have "fst (getSavedBucket E u) = Some b"
      using ok that(1) by (simp add: getSavedBucket_reads)
    from assignFairBucket_existing [OF this that(2)] show ?thesis
      by (simp add: storeWrites_def isSetItem_def)
  qed
  have "\<exists>b. fst (assignFairBucket E w) = Inr b \<and> b \<noteq> [] \<and>
            storage w' FAIR_BUCKET_STORAGE_KEY = Some b \<and>
            storeWrites (events w') \<le> storeWrites (events w) + 1"
  proof (cases "\<exists>b. storage w FAIR_BUCKET_STORAGE_KEY = Some b \<and> b \<noteq> []")
    case True
    then obtain b where b: "storage w FAIR_BUCKET_STORAGE_KEY = Some b" "b \<noteq> []" by blast
    have g: "fst (getSavedBucket E w) = Some b"
      using ok b(1) by (simp add: getSavedBucket_reads)
    from assignFairBucket_existing [OF g b(2)] again [OF b] b show ?thesis
      by (intro exI [of _ b]) (simp add: w'_def)
  next
    case False
    then have n: "fst (getSavedBucket E w) = None \<or> fst (getSavedBucket E w) = Some []"
      using ok by (cases "storage w FAIR_BUCKET_STORAGE_KEY") (auto simp: getSavedBucket_reads)
    define w1 where "w1 = emit (GetItem FAIR_BUCKET_STORAGE_KEY) w"
    have a: "assignFairBucket E w = assignNewBucket E w1"
      using assignFairBucket_new [OF n] ok by (simp add: getSavedBucket_reads w1_def)
    obtain s where s: "fst (assignNewBucket E w1) = Inr (bucketOfScore s)"
        "storage (snd (assignNewBucket E w1)) FAIR_BUCKET_STORAGE_KEY = Some (bucketOfScore s)"
        "storeWrites (events (snd (assignNewBucket E w1))) = storeWrites (events w1) + 1"
      using assignNewBucket_effect [of E w1] ok by blast
    have "storeWrites (events w1) = storeWrites (events w)"
      by (simp add: w1_def storeWrites_def isSetItem_def)
    with a s show ?thesis
      by (intro exI [of _ "bucketOfScore s"]) (simp add: w'_def)
  qed
  then obtain b where b: "fst (assignFairBucket E w) = Inr b" "b \<noteq> []"
      "storage w' FAIR_BUCKET_STORAGE_KEY = Some b"
      "storeWrites (events w') \<le> storeWrites (events w) + 1"
    by blast
  from again [OF b(3) b(2)] b
  show "(\<exists>b. fst (assignFairBucket E w) = Inr b \<and>
           fst (assignFairBucket E (snd (assignFairBucket E w))) = Inr b) \<and>
      storeWrites (events (snd (assignFairBucket E (snd (assignFairBucket E w)))))
        \<le> storeWrites (events w) + 1"
    by (auto simp: w'_def)
qed

theorem assignFairBucket_idempotent_witness:
  "fst (getSavedBucket exampleEnv (worldWith (Some (js ''A'')) None)) = Some (js ''A'') \<and>
   js ''A'' \<noteq> [] \<and>
   fst (assignFairBucket exampleEnv (worldWith (Some (js ''A'')) None)) = Inr (js ''A'') \<and>
   \<not> getItem_throws exampleEnv \<and> \<not> setItem_throws exampleEnv \<and>
   fst (assignFairBucket exampleEnv emptyWorld) = Inr (js ''B'') \<and>
   fst (assignFairBucket exampleEnv (snd (assignFairBucket exampleEnv emptyWorld))) = Inr (js ''B'') \<and>
   storeWrites (events (snd (assignFairBucket exampleEnv
                               (snd (assignFairBucket exampleEnv emptyWorld))))) \<le> 1"
proof -
  have g: "fst (getSavedBucket exampleEnv (worldWith (Some (js ''A'')) None)) = Some (js ''A'')"
    by (simp add: getSavedBucket_reads)
  have n: "fst (assignFairBucket exampleEnv emptyWorld) = Inr (js ''B'')"
    using assignFairBucket_new [of exampleEnv emptyWorld]
    by (simp add: getSavedBucket_reads example_assignNew)
  have z: "storeWrites (events emptyWorld) = 0"
    by (simp add: storeWrites_def emptyWorld_def)
  show ?thesis
    using assignFairBucket_idempotent [of exampleEnv "worldWith (Some (js ''A'')) None" "js ''A''"]
          assignFairBucket_idempotent [of exampleEnv emptyWorld "js ''A''"] g n z
    by auto
qed

text \<open>
  C5. Whatever the state before, when \<open>getItem\<close> and \<open>setItem\<close> work: after
  \<open>setFairBucket("A")\<close> the store holds \<open>"A"\<close> and the manual flag \<open>"true"\<close>; the next
  \<open>assignFairBucket\<close> returns \<open>"A"\<close>, does nothing but read the two keys and print one
  console line (no identity key is built and no hash is computed), and leaves the store
  as it is; \<open>isManualOverride\<close> is true before and after it.
\<close>

theorem manual_override_precedence:
  assumes "\<not> getItem_throws E" and "\<not> setItem_throws E"
  shows "storage (setFairBucket E (js ''A'') w) FAIR_BUCKET_STORAGE_KEY = Some (js ''A'') \<and>
         storage (setFairBucket E (js ''A'') w) FAIR_BUCKET_MANUAL_KEY = Some (js ''true'') \<and>
         fst (isManualOverride E (setFairBucket E (js ''A'') w)) \<and>
         assignFairBucket E (setFairBucket E (js ''A'') w) =
           (Inr (js ''A''),
            (setFairBucket E (js ''A'') w)\<lparr>events := events (setFairBucket E (js ''A'') w) @
               [GetItem FAIR_BUCKET_STORAGE_KEY, GetItem FAIR_BUCKET_MANUAL_KEY,
                Console Log ''[Splitter] Loaded existing bucket:'']\<rparr>) \<and>
         fst (isManualOverride E (snd (assignFairBucket E (setFairBucket E (js ''A'') w))))"
proof -
  define w1 where "w1 = setFairBucket E (js ''A'') w"
  have k: "storage w1 FAIR_BUCKET_STORAGE_KEY = Some (js ''A'')"
    using assms
    by (simp add: w1_def setFairBucket_def saveBucket_def setManualOverride_def setItem_def
          Let_def)
  have m: "storage w1 FAIR_BUCKET_MANUAL_KEY = Some (js ''true'')"
    using assms
    by (simp add: w1_def setFairBucket_def saveBucket_def setManualOverride_def setItem_def
          Let_def)
  have g: "fst (getSavedBucket E w1) = Some (js ''A'')"
    using assms k by (simp add: getSavedBucket_reads)
  have a: "assignFairBucket E w1 =
             (Inr (js ''A''), w1\<lparr>events := events w1 @
                [GetItem FAIR_BUCKET_STORAGE_KEY, GetItem FAIR_BUCKET_MANUAL_KEY,
                 Console Log ''[Splitter] Loaded existing bucket:'']\<rparr>)"
    using assignFairBucket_existing [OF g] by (simp add: emit_update)
  have i1: "fst (isManualOverride E w1)"
    using assms m by (simp add: isManualOverride_reads)
  have i2: "fst (isManualOverride E (snd (assignFairBucket E w1)))"
    using assms m by (simp add: isManualOverride_reads a)
  show ?thesis
    using k m i1 a i2 unfolding w1_def by simp
qed

theorem manual_override_precedence_witness:
  "\<not> getItem_throws exampleEnv \<and> \<not> setItem_throws exampleEnv \<and>
   fst (getHashBasedBucket exampleEnv (worldWith (Some (js ''B'')) None)) = Inr (js ''B'') \<and>
   fst (assignFairBucket exampleEnv
          (setFairBucket exampleEnv (js ''A'') (worldWith (Some (js ''B'')) None))) = Inr (js ''A'') \<and>
   fst (isManualOverride exampleEnv
          (snd (assignFairBucket exampleEnv
                  (setFairBucket exampleEnv (js ''A'') (worldWith (Some (js ''B'')) None)))))"
  using manual_override_precedence [of exampleEnv "worldWith (Some (js ''B'')) None"]
        example_peek [of "worldWith (Some (js ''B'')) None"]
  by (simp add: isManualOverride_reads)

text \<open>
  C6. For every value other than \<open>"A"\<close> and \<open>"B"\<close>, \<open>setFairBucket\<close> prints one
  \<open>console.error\<close> line and does nothing else: the store is not called and its contents
  are unchanged, so the saved bucket and the manual-override flag read afterwards are
  what they were before.
\<close>

theorem setFairBucket_rejects_invalid:
  assumes "bucket \<noteq> js ''A''" and "bucket \<noteq> js ''B''"
  shows "setFairBucket E bucket w =
           w\<lparr>events := events w @ [Console Error ''[Splitter] Invalid bucket:'']\<rparr> \<and>
         storage (setFairBucket E bucket w) = storage w \<and>
         filter isStoreEvent (events (setFairBucket E bucket w)) = filter isStoreEvent (events w) \<and>
         fst (getSavedBucket E (setFairBucket E bucket w)) = fst (getSavedBucket E w) \<and>
         fst (isManualOverride E (setFairBucket E bucket w)) = fst (isManualOverride E w)"
  using assms
  by (simp add: setFairBucket_def emit_update getSavedBucket_def isManualOverride_def
        getItem_def isStoreEvent_def)

theorem setFairBucket_rejects_invalid_witness:
  "js ''C'' \<noteq> js ''A'' \<and> js ''C'' \<noteq> js ''B'' \<and>
   storage (setFairBucket exampleEnv (js ''C'') (worldWith (Some (js ''B'')) (Some (js ''true''))))
     = storage (worldWith (Some (js ''B'')) (Some (js ''true''))) \<and>
   fst (getSavedBucket exampleEnv
          (setFairBucket exampleEnv (js ''C'') (worldWith (Some (js ''B'')) (Some (js ''true'')))))
     = Some (js ''B'') \<and>
   fst (isManualOverride exampleEnv
          (setFairBucket exampleEnv (js ''C'') (worldWith (Some (js ''B'')) (Some (js ''true'')))))"
proof -
  have c: "js ''C'' \<noteq> js ''A''" "js ''C'' \<noteq> js ''B''"
    by (simp_all add: js_def)
  show ?thesis
    using setFairBucket_rejects_invalid [OF c, of exampleEnv
            "worldWith (Some (js ''B'')) (Some (js ''true''))"] c
    by (simp add: getSavedBucket_reads isManualOverride_reads)
qed

text \<open>
  C10. When \<open>getItem\<close> works, \<open>assignFairBucket\<close> returns whatever non-empty string the
  store holds under the assignment key, also one that is neither \<open>"A"\<close> nor \<open>"B"\<close>,
  without changing the store and without drawing from a random source. When the store
  holds the empty string there, it computes a bucket as \<open>getHashBasedBucket\<close> would
  (the bucket of a score in range), and, when \<open>setItem\<close> works, stores it over the
  empty string.
\<close>

theorem assignFairBucket_verbatim:
  "(\<not> getItem_throws E \<and> storage w FAIR_BUCKET_STORAGE_KEY = Some v \<and> v \<noteq> [] \<longrightarrow>
      fst (assignFairBucket E w) = Inr v \<and>
      storage (snd (assignFairBucket E w)) = storage w \<and>
      sameDraws (snd (assignFairBucket E w)) w \<and>
      storeWrites (events (snd (assignFairBucket E w))) = storeWrites (events w)) \<and>
   (\<not> getItem_throws E \<and> storage w FAIR_BUCKET_STORAGE_KEY = Some [] \<longrightarrow>
      (\<exists>s. 0 \<le> s \<and> s \<le> 4294967295 \<and>
           fst (assignFairBucket E w) = Inr (bucketOfScore s) \<and>
           fst (getHashBasedBucket E w) = Inr (bucketOfScore s) \<and>
           (\<not> setItem_throws E \<longrightarrow>
              storage (snd (assignFairBucket E w)) FAIR_BUCKET_STORAGE_KEY
                = Some (bucketOfScore s))))"
proof (rule conjI; rule impI)
  assume h: "\<not> getItem_throws E \<and> storage w FAIR_BUCKET_STORAGE_KEY = Some v \<and> v \<noteq> []"
  then have g: "fst (getSavedBucket E w) = Some v"
    by (simp add: getSavedBucket_reads)
  from assignFairBucket_existing [OF g] h
  show "fst (assignFairBucket E w) = Inr v \<and>
      storage (snd (assignFairBucket E w)) = storage w \<and>
      sameDraws (snd (assignFairBucket E w)) w \<and>
      storeWrites (events (snd (assignFairBucket E w))) = storeWrites (events w)"
    by (simp add: storeWrites_def isSetItem_def)
next
  assume h: "\<not> getItem_throws E \<and> storage w FAIR_BUCKET_STORAGE_KEY = Some []"
  define w1 where "w1 = emit (GetItem FAIR_BUCKET_STORAGE_KEY) w"
  have n: "fst (getSavedBucket E w) = None \<or> fst (getSavedBucket E w) = Some []"
    using h by (simp add: getSavedBucket_reads)
  have a: "assignFairBucket E w = assignNewBucket E w1"
    using assignFairBucket_new [OF n] h by (simp add: getSavedBucket_reads w1_def)
  have p: "fst (getHashBasedBucket E w1) = fst (getHashBasedBucket E w)"
    by (rule getHashBasedBucket_same) (simp add: w1_def)
  from assignNewBucket_effect [of E w1] a p
  show "\<exists>s. 0 \<le> s \<and> s \<le> 4294967295 \<and>
           fst (assignFairBucket E w) = Inr (bucketOfScore s) \<and>
           fst (getHashBasedBucket E w) = Inr (bucketOfScore s) \<and>
           (\<not> setItem_throws E \<longrightarrow>
              storage (snd (assignFairBucket E w)) FAIR_BUCKET_STORAGE_KEY
                = Some (bucketOfScore s))"
    by auto
qed

theorem assignFairBucket_verbatim_witness:
  "\<not> getItem_throws exampleEnv \<and>
   storage (worldWith (Some (js ''C'')) None) FAIR_BUCKET_STORAGE_KEY = Some (js ''C'') \<and>
   js ''C'' \<noteq> [] \<and> js ''C'' \<noteq> js ''A'' \<and> js ''C'' \<noteq> js ''B'' \<and>
   fst (assignFairBucket exampleEnv (worldWith (Some (js ''C'')) None)) = Inr (js ''C'') \<and>
   storage (worldWith (Some []) None) FAIR_BUCKET_STORAGE_KEY = Some [] \<and>
   \<not> setItem_throws exampleEnv \<and>
   fst (assignFairBucket exampleEnv (worldWith (Some []) None)) = Inr (js ''B'') \<and>
   storage (snd (assignFairBucket exampleEnv (worldWith (Some []) None))) FAIR_BUCKET_STORAGE_KEY
     = Some (js ''B'')"
proof -
  have c: "js ''C'' \<noteq> []" "js ''C'' \<noteq> js ''A''" "js ''C'' \<noteq> js ''B''"
    by (simp_all add: js_def)
  show ?thesis
    using assignFairBucket_verbatim [of exampleEnv "worldWith (Some (js ''C'')) None" "js ''C''"]
          assignFairBucket_verbatim [of exampleEnv "worldWith (Some []) None" "js ''C''"]
          example_peek [of "worldWith (Some []) None"] c
    by auto
qed

text \<open>
  C9. For every well-formed string, \<open>strToUtf8Bytes\<close> returns the bytes of the standard
  UTF-8 encoding of the string, the ones \<open>new TextEncoder().encode\<close> returns; so the
  bytes handed to the digest, and with them the whole first stage of the hash chain,
  are the same whether or not \<open>TextEncoder\<close> is available.
\<close>

theorem strToUtf8Bytes_is_utf8:
  assumes "well_formed s"
  shows "strToUtf8Bytes s = Inr (map (\<lambda>b. Num (uint b)) (TextEncoder_encode s)) \<and>
         utf8Bytes (E\<lparr>TextEncoder_available := False\<rparr>) s = Inr (TextEncoder_encode s) \<and>
         utf8Bytes (E\<lparr>TextEncoder_available := True\<rparr>) s = Inr (TextEncoder_encode s) \<and>
         sha256Stage (E\<lparr>TextEncoder_available := False\<rparr>) s w
           = sha256Stage (E\<lparr>TextEncoder_available := True\<rparr>) s w"
  using strToUtf8Bytes_standard [OF assms]
        utf8Bytes_standard [OF assms, of "E\<lparr>TextEncoder_available := False\<rparr>"]
        utf8Bytes_standard [OF assms, of "E\<lparr>TextEncoder_available := True\<rparr>"]
  by (simp add: sha256Stage_def firstUint32_def split: option.splits)

theorem strToUtf8Bytes_is_utf8_witness:
  "well_formed [0x41, 0x25, 0xE9, 0x20AC, 0xD83D, 0xDE00] \<and>
   strToUtf8Bytes [0x41, 0x25, 0xE9, 0x20AC, 0xD83D, 0xDE00] =
     Inr [Num 0x41, Num 0x25, Num 0xC3, Num 0xA9, Num 0xE2, Num 0x82, Num 0xAC,
          Num 0xF0, Num 0x9F, Num 0x98, Num 0x80]"
proof -
  have wf: "well_formed [0x41, 0x25, 0xE9, 0x20AC, 0xD83D, 0xDE00]"
    by (simp add: isLeadSurrogate_def isTrailSurrogate_def)
  have enc: "TextEncoder_encode [0x41, 0x25, 0xE9, 0x20AC, 0xD83D, 0xDE00] =
      [0x41, 0x25, 0xC3, 0xA9, 0xE2, 0x82, 0xAC, 0xF0, 0x9F, 0x98, 0x80]"
    by (simp add: isLeadSurrogate_def isTrailSurrogate_def utf8_encode_code_point_def
          surrogatePair_def)
  from strToUtf8Bytes_is_utf8 [OF wf, of exampleEnv emptyWorld]
  have "strToUtf8Bytes [0x41, 0x25, 0xE9, 0x20AC, 0xD83D, 0xDE00] =
          Inr (map (\<lambda>b. Num (uint b))
                 (TextEncoder_encode [0x41, 0x25, 0xE9, 0x20AC, 0xD83D, 0xDE00]))"
    by (rule conjunct1)
  then have "strToUtf8Bytes [0x41, 0x25, 0xE9, 0x20AC, 0xD83D, 0xDE00] =
          Inr (map (\<lambda>b. Num (uint b))
                 ([0x41, 0x25, 0xC3, 0xA9, 0xE2, 0x82, 0xAC, 0xF0, 0x9F, 0x98, 0x80] :: byte list))"
    by (simp add: enc del: TextEncoder_encode.simps)
  then have "strToUtf8Bytes [0x41, 0x25, 0xE9, 0x20AC, 0xD83D, 0xDE00] =
     Inr [Num 0x41, Num 0x25, Num 0xC3, Num 0xA9, Num 0xE2, Num 0x82, Num 0xAC,
          Num 0xF0, Num 0x9F, Num 0x98, Num 0x80]"
    by simp
  with wf show ?thesis by (rule conjI)
qed

section \<open>The random fallback identifier\<close>

lemma buildHashInput_unavailable:
  assumes "providerUnavailable E"
  shows "fst (buildHashInput E w) =
           toLowerCase E (trim (js ''random-''
             @ substring 2 15 (numberToString36 E (Math_random E (random_draws w)))
             @ js ''|'' @ (case userAgent E of None \<Rightarrow> [] | Some ua \<Rightarrow> ua))) \<and>
         random_draws (snd (buildHashInput E w)) = Suc (random_draws w)"
  using assms
  by (cases "getGeoIP E"; cases "userAgent E")
     (simp_all add: providerUnavailable_def buildHashInput_def getMyIpAddress_def
        Math_random_draw_def Let_def)

lemma noProviderEnv_fields:
  "providerUnavailable noProviderEnv"
  "userAgent noProviderEnv = Some (js ''test-agent'')"
  "toLowerCase noProviderEnv s = s"
  "numberToString36 noProviderEnv (Math_random noProviderEnv 0) = js ''0.9''"
  "numberToString36 noProviderEnv (Math_random noProviderEnv (Suc 0)) = js ''0.i''"
  by (simp_all add: noProviderEnv_def exampleEnv_def providerUnavailable_def)

lemma random_keys:
  "trim (js ''random-'' @ substring 2 15 (js ''0.9'') @ js ''|'' @ js ''test-agent'')
     = js ''random-9|test-agent''"
  "trim (js ''random-'' @ substring 2 15 (js ''0.i'') @ js ''|'' @ js ''test-agent'')
     = js ''random-i|test-agent''"
  "js ''random-9|test-agent'' \<noteq> js ''random-i|test-agent''"
  by (simp_all add: trim_def substring_def js_def isWhiteSpace_def)

text \<open>
  C8, as the specification states it: with the identity provider unavailable, two
  builds of the identity key in one run give the same key. It fails: the first build
  below gives \<open>random-9|test-agent\<close>, the second \<open>random-i|test-agent\<close>.
\<close>

theorem random_identifier_stable_counterexample:
  "providerUnavailable noProviderEnv \<and>
   fst (buildHashInput noProviderEnv emptyWorld) = js ''random-9|test-agent'' \<and>
   fst (buildHashInput noProviderEnv (snd (buildHashInput noProviderEnv emptyWorld)))
     = js ''random-i|test-agent'' \<and>
   fst (buildHashInput noProviderEnv (snd (buildHashInput noProviderEnv emptyWorld)))
     \<noteq> fst (buildHashInput noProviderEnv emptyWorld)"
proof -
  have d0: "random_draws emptyWorld = 0"
    by (simp add: emptyWorld_def)
  have d1: "random_draws (snd (buildHashInput noProviderEnv emptyWorld)) = Suc 0"
    using buildHashInput_unavailable [OF noProviderEnv_fields(1), of emptyWorld] d0 by simp
  have k0: "fst (buildHashInput noProviderEnv emptyWorld) = js ''random-9|test-agent''"
    using buildHashInput_unavailable [OF noProviderEnv_fields(1), of emptyWorld]
    by (simp add: d0 noProviderEnv_fields random_keys)
  have k1: "fst (buildHashInput noProviderEnv (snd (buildHashInput noProviderEnv emptyWorld)))
              = js ''random-i|test-agent''"
    using buildHashInput_unavailable [OF noProviderEnv_fields(1),
            of "snd (buildHashInput noProviderEnv emptyWorld)"]
    by (simp add: d1 noProviderEnv_fields random_keys)
  show ?thesis
    using k0 k1 random_keys(3) noProviderEnv_fields(1) by simp
qed

lemma trim_random_key:
  "trim (js ''random-'' @ x @ js ''|'' @ ua)
     = js ''random-'' @ x @ js ''|'' @ rev (dropWhile isWhiteSpace (rev ua))"
proof -
  have pre: "js ''random-'' = 0x72 # [0x61, 0x6E, 0x64, 0x6F, 0x6D, 0x2D]"
    by (simp add: js_def)
  have bar: "js ''|'' = [0x7C]"
    by (simp add: js_def)
  have nws: "\<not> isWhiteSpace 0x72" "\<not> isWhiteSpace 0x7C"
    by (simp_all add: isWhiteSpace_def)
  define p where "p = [0x61, 0x6E, 0x64, 0x6F, 0x6D, 0x2D :: code_unit]"
  have "dropWhile isWhiteSpace (rev ua @ 0x7C # (rev x @ rev (0x72 # p)))
          = dropWhile isWhiteSpace (rev ua) @ 0x7C # (rev x @ rev (0x72 # p))"
    using nws(2) by (rule dropWhile_append3)
  then show ?thesis
    using nws(1) by (simp add: trim_def pre bar p_def)
qed

lemma trim_random_key_inj:
  "trim (js ''random-'' @ x @ js ''|'' @ ua) = trim (js ''random-'' @ y @ js ''|'' @ ua)
     \<longleftrightarrow> x = y"
  by (simp add: trim_random_key)

text \<open>
  C8, amended. With the identity provider unavailable, every build of the identity key
  takes a new draw from \<open>Math.random\<close> and no identifier is kept for the run: the build
  made at draw \<open>n\<close> returns the lower-cased, trimmed string \<open>"random-"\<close> + characters 2 to
  14 of the base-36 text of draw \<open>n\<close> + \<open>"|"\<close> + the user agent, and moves on to draw
  \<open>n + 1\<close>, so the next build in the same run returns that string for draw \<open>n + 1\<close>.
  The two builds give the same key if draws \<open>n\<close> and \<open>n + 1\<close> render to the same
  identifier and, when lower-casing is injective, only then.
\<close>

theorem random_identifier_fresh_per_build:
  assumes "providerUnavailable E"
  shows "fst (buildHashInput E w) =
           toLowerCase E (trim (js ''random-''
             @ substring 2 15 (numberToString36 E (Math_random E (random_draws w)))
             @ js ''|'' @ (case userAgent E of None \<Rightarrow> [] | Some ua \<Rightarrow> ua))) \<and>
         random_draws (snd (buildHashInput E w)) = Suc (random_draws w) \<and>
         fst (buildHashInput E (snd (buildHashInput E w))) =
           toLowerCase E (trim (js ''random-''
             @ substring 2 15 (numberToString36 E (Math_random E (Suc (random_draws w))))
             @ js ''|'' @ (case userAgent E of None \<Rightarrow> [] | Some ua \<Rightarrow> ua))) \<and>
         (randomId E (Suc (random_draws w)) = randomId E (random_draws w) \<longrightarrow>
            fst (buildHashInput E (snd (buildHashInput E w))) = fst (buildHashInput E w)) \<and>
         (inj (toLowerCase E) \<longrightarrow>
            (fst (buildHashInput E (snd (buildHashInput E w))) = fst (buildHashInput E w)
               \<longleftrightarrow> randomId E (Suc (random_draws w)) = randomId E (random_draws w)))"
proof -
  define ua where "ua = (case userAgent E of None \<Rightarrow> [] | Some ua \<Rightarrow> ua)"
  define id0 where "id0 = substring 2 15 (numberToString36 E (Math_random E (random_draws w)))"
  define id1 where
    "id1 = substring 2 15 (numberToString36 E (Math_random E (Suc (random_draws w))))"
  have k0: "fst (buildHashInput E w) = toLowerCase E (trim (js ''random-'' @ id0 @ js ''|'' @ ua))"
    and d: "random_draws (snd (buildHashInput E w)) = Suc (random_draws w)"
    using buildHashInput_unavailable [OF assms, of w] by (simp_all add: ua_def id0_def)
  have k1: "fst (buildHashInput E (snd (buildHashInput E w)))
              = toLowerCase E (trim (js ''random-'' @ id1 @ js ''|'' @ ua))"
    using buildHashInput_unavailable [OF assms, of "snd (buildHashInput E w)"]
    by (simp add: d ua_def id1_def)
  have ids: "randomId E (Suc (random_draws w)) = randomId E (random_draws w) \<longleftrightarrow> id1 = id0"
    by (simp add: randomId_def id0_def id1_def)
  have same: "id1 = id0 \<Longrightarrow>
      fst (buildHashInput E (snd (buildHashInput E w))) = fst (buildHashInput E w)"
    by (simp add: k0 k1)
  have only: "fst (buildHashInput E (snd (buildHashInput E w))) = fst (buildHashInput E w)
                \<longleftrightarrow> id1 = id0" if "inj (toLowerCase E)"
    using that by (simp add: k0 k1 inj_eq trim_random_key_inj)
  show ?thesis
    using k0 d k1 ids same only unfolding ua_def id0_def id1_def by blast
qed

theorem random_identifier_fresh_per_build_witness:
  "providerUnavailable noProviderEnv \<and> inj (toLowerCase noProviderEnv) \<and>
   fst (buildHashInput noProviderEnv emptyWorld) = js ''random-9|test-agent'' \<and>
   random_draws (snd (buildHashInput noProviderEnv emptyWorld)) = 1 \<and>
   randomId noProviderEnv 1 \<noteq> randomId noProviderEnv 0 \<and>
   fst (buildHashInput noProviderEnv (snd (buildHashInput noProviderEnv emptyWorld)))
     \<noteq> fst (buildHashInput noProviderEnv emptyWorld) \<and>
   providerUnavailable constantDrawEnv \<and>
   randomId constantDrawEnv 1 = randomId constantDrawEnv 0 \<and>
   fst (buildHashInput constantDrawEnv (snd (buildHashInput constantDrawEnv emptyWorld)))
     = fst (buildHashInput constantDrawEnv emptyWorld)"
proof -
  have d0: "random_draws emptyWorld = 0"
    by (simp add: emptyWorld_def)
  have i: "inj (toLowerCase noProviderEnv)"
    by (simp add: noProviderEnv_def exampleEnv_def)
  have n: "randomId noProviderEnv (Suc 0) \<noteq> randomId noProviderEnv 0"
    by (simp add: randomId_def noProviderEnv_fields js_def substring_def)
  have pc: "providerUnavailable constantDrawEnv"
    by (simp add: constantDrawEnv_def providerUnavailable_def)
  have e: "randomId constantDrawEnv (Suc 0) = randomId constantDrawEnv 0"
    by (simp add: randomId_def constantDrawEnv_def exampleEnv_def)
  have a: "fst (buildHashInput noProviderEnv emptyWorld) = js ''random-9|test-agent'' \<and>
           random_draws (snd (buildHashInput noProviderEnv emptyWorld)) = 1 \<and>
           fst (buildHashInput noProviderEnv (snd (buildHashInput noProviderEnv emptyWorld)))
             \<noteq> fst (buildHashInput noProviderEnv emptyWorld)"
    using random_identifier_fresh_per_build [OF noProviderEnv_fields(1), of emptyWorld] i n
          random_keys(3) [THEN not_sym]
    by (simp add: d0 noProviderEnv_fields random_keys)
  have b: "fst (buildHashInput constantDrawEnv (snd (buildHashInput constantDrawEnv emptyWorld)))
             = fst (buildHashInput constantDrawEnv emptyWorld)"
    using random_identifier_fresh_per_build [OF pc, of emptyWorld] e
    unfolding d0 by blast
  show ?thesis
    using noProviderEnv_fields(1) i n pc e a b unfolding One_nat_def by blast
qed

end
